theory Spec2Isabelle
  imports Main "HOL-Library.Multiset"
begin

section \<open>Configuration constants (config/settings.py)\<close>

definition OFAC_URL :: string where
  "OFAC_URL = ''https://sanctionssearch.ofac.treas.gov/''"

definition STATUS_OK :: string where
  "STATUS_OK = ''OK''"

definition STATUS_ERROR :: string where
  "STATUS_ERROR = ''NOK''"

text \<open>The sixth letter of the second word is U+00F3 (o with acute accent); a Python
  string is a sequence of code points, and this one fits a \<^typ>\<open>char\<close>.\<close>

definition STATUS_INCOMPLETE :: string where
  "STATUS_INCOMPLETE = ''Informaci'' @ [char_of (243::nat)] @ ''n incompleta''"

definition STATUS_NO_MASTER_RECORD :: string where
  "STATUS_NO_MASTER_RECORD = ''No cruza con maestra''"

section \<open>Data model\<close>

text \<open>A row of \<open>fetch_persons_to_process\<close>: the dictionary with the five columns of the
  query. The three columns of the left join are \<open>None\<close> when no master row matches, and
  any text column may hold SQL NULL.\<close>

record person =
  idPersona :: int
  nombrePersona :: string
  idMaestra :: "int option"
  direccion :: "string option"
  pais :: "string option"

text \<open>A row handed to the results table:
  (idPersona, nombrePersona, pais, cantidadDeResultados, estadoTransaccion).\<close>

type_synonym result_record = "int \<times> string \<times> string option \<times> int option \<times> string"

text \<open>A row of the report query: (idPersona, nombrePersona, pais, estadoTransaccion).\<close>

type_synonym report_row = "int \<times> string \<times> string option \<times> string"

text \<open>Python exceptions that the modelled code can meet. All of them are subclasses of
  \<open>Exception\<close>, so an \<open>except Exception\<close> clause catches each one.\<close>

datatype exn =
    TimeoutException
  | NoSuchElementException
  | WebDriverException
  | OperationalError
  | DatabaseError
  | AttributeError
  | ValueError

text \<open>The calls between the components, and the SQL statements sent to the cursor. Both
  are recorded in the state so that "is invoked" and "is written" can be stated.\<close>

datatype call =
    DatabaseManagerInit
  | FetchPersonsToProcess
  | InsertResultsBulk "result_record list"
  | InsertSingleResult person "int option" string
  | FetchIncompleteRecordsForReport
  | Disconnect
  | OfacScraperInit
  | SearchPerson string "string option" "string option"
  | TakeScreenshot int
  | ResetSearchForm
  | Close
  | CreateIncompleteRecordsReport "report_row list"

text \<open>\<open>db_manager.py\<close> sends the first six kinds only; \<open>Update\<close> and \<open>Delete\<close> stand
  for the statements that would change or remove a stored row.\<close>

datatype stmt =
    SelectPersons
  | InsertValues "result_record list"
  | InsertRow result_record
  | SelectIncomplete
  | Commit
  | Rollback
  | Update
  | Delete

record 'w st =
  world :: 'w
  calls :: "call list"
  sql :: "stmt list"

section \<open>Statements that may raise\<close>

text \<open>A statement takes the state and gives back either the exception it raised or its
  value, together with the state it left behind.\<close>

type_synonym ('a, 'w) prog = "'w st \<Rightarrow> (exn + 'a) \<times> 'w st"

definition ret :: "'a \<Rightarrow> ('a, 'w) prog" where
  "ret x s = (Inr x, s)"

definition raise :: "exn \<Rightarrow> ('a, 'w) prog" where
  "raise e s = (Inl e, s)"

definition and_then :: "('a, 'w) prog \<Rightarrow> ('a \<Rightarrow> ('b, 'w) prog) \<Rightarrow> ('b, 'w) prog" where
  "and_then m f s = (case m s of (Inl e, s') \<Rightarrow> (Inl e, s') | (Inr x, s') \<Rightarrow> f x s')"

text \<open>\<open>try: m  except Exception as e: h e\<close>\<close>

definition try_except :: "('a, 'w) prog \<Rightarrow> (exn \<Rightarrow> ('a, 'w) prog) \<Rightarrow> ('a, 'w) prog" where
  "try_except m h s = (case m s of (Inl e, s') \<Rightarrow> h e s' | (Inr x, s') \<Rightarrow> (Inr x, s'))"

text \<open>\<open>try: m  finally: f\<close>: \<open>f\<close> runs on both exits; an exception of \<open>f\<close> replaces
  the outcome of \<open>m\<close>.\<close>

definition try_finally :: "('a, 'w) prog \<Rightarrow> (unit, 'w) prog \<Rightarrow> ('a, 'w) prog" where
  "try_finally m f s =
     (case m s of (r, s') \<Rightarrow> (case f s' of (Inl e, s'') \<Rightarrow> (Inl e, s'') | (Inr _, s'') \<Rightarrow> (r, s'')))"

text \<open>A call of a library primitive, which acts on the outside world only.\<close>

definition prim :: "('w \<Rightarrow> (exn + 'a) \<times> 'w) \<Rightarrow> ('a, 'w) prog" where
  "prim f s = (case f (world s) of (r, w') \<Rightarrow> (r, s\<lparr>world := w'\<rparr>))"

definition note_call :: "call \<Rightarrow> (unit, 'w) prog" where
  "note_call c s = (Inr (), s\<lparr>calls := calls s @ [c]\<rparr>)"

definition note_sql :: "stmt \<Rightarrow> (unit, 'w) prog" where
  "note_sql q s = (Inr (), s\<lparr>sql := sql s @ [q]\<rparr>)"

text \<open>A computation that touches neither the world nor the record: it only returns or
  raises.\<close>

definition of_result :: "exn + 'a \<Rightarrow> ('a, 'w) prog" where
  "of_result r s = (r, s)"

section \<open>The libraries the program drives\<close>

text \<open>Selenium, psycopg2, pandas and the clock are not part of the program: they are
  parameters. \<open>'w\<close> is the outside world (browser, page, database, file system) and
  \<open>'e\<close> the handle of a page element. Every primitive may raise.\<close>

record ('w, 'e) env =
  chrome_start :: "'w \<Rightarrow> (exn + unit) \<times> 'w"
  driver_get :: "string \<Rightarrow> 'w \<Rightarrow> (exn + unit) \<times> 'w"
  wait_presence :: "string \<Rightarrow> 'w \<Rightarrow> (exn + 'e) \<times> 'w"
  find_element :: "string \<Rightarrow> 'w \<Rightarrow> (exn + 'e) \<times> 'w"
  send_keys :: "'e \<Rightarrow> string option \<Rightarrow> 'w \<Rightarrow> (exn + unit) \<times> 'w"
  select_new :: "'e \<Rightarrow> 'w \<Rightarrow> (exn + 'e) \<times> 'w"
  select_by_visible_text :: "'e \<Rightarrow> string option \<Rightarrow> 'w \<Rightarrow> (exn + unit) \<times> 'w"
  click :: "'e \<Rightarrow> 'w \<Rightarrow> (exn + unit) \<times> 'w"
  element_text :: "'e \<Rightarrow> 'w \<Rightarrow> (exn + string) \<times> 'w"
  execute_script :: "string \<Rightarrow> 'w \<Rightarrow> (exn + unit) \<times> 'w"
  today :: "'w \<Rightarrow> string"
  screenshots_dir :: string
  save_screenshot :: "string \<Rightarrow> 'w \<Rightarrow> (exn + unit) \<times> 'w"
  driver_quit :: "'w \<Rightarrow> (exn + unit) \<times> 'w"
  db_connect :: "'w \<Rightarrow> (exn + unit) \<times> 'w"
  select_persons :: "'w \<Rightarrow> (exn + person list) \<times> 'w"
  execute_values :: "result_record list \<Rightarrow> 'w \<Rightarrow> (exn + unit) \<times> 'w"
  execute_insert :: "result_record \<Rightarrow> 'w \<Rightarrow> (exn + unit) \<times> 'w"
  commit :: "'w \<Rightarrow> (exn + unit) \<times> 'w"
  rollback :: "'w \<Rightarrow> (exn + unit) \<times> 'w"
  select_incomplete :: "'w \<Rightarrow> (exn + report_row list) \<times> 'w"
  cursor_close :: "'w \<Rightarrow> (exn + unit) \<times> 'w"
  conn_close :: "'w \<Rightarrow> (exn + unit) \<times> 'w"
  write_report :: "report_row list \<Rightarrow> 'w \<Rightarrow> (exn + unit) \<times> 'w"

section \<open>scraping/ofac_scraper.py\<close>

datatype webdriver = ChromeDriver

text \<open>The \<open>OfacScraper\<close> object: its \<open>driver\<close> attribute. The constructor always sets
  it, and no method ever clears it.\<close>

record scraper =
  driver :: "webdriver option"

text \<open>\<open>self.driver.m(...)\<close>: an attribute access on \<open>None\<close> raises.\<close>

definition with_driver :: "scraper \<Rightarrow> ('a, 'w) prog \<Rightarrow> ('a, 'w) prog" where
  "with_driver sc m = (case driver sc of None \<Rightarrow> raise AttributeError | Some d \<Rightarrow> m)"

definition OfacScraper_init :: "('w, 'e) env \<Rightarrow> (scraper, 'w) prog" where
  "OfacScraper_init env =
     and_then (note_call OfacScraperInit) (\<lambda>_.
     try_except
       (and_then (prim (chrome_start env)) (\<lambda>_. ret \<lparr>driver = Some ChromeDriver\<rparr>))
       (\<lambda>e. raise e))"

text \<open>\<open>\d\<close> on a text of code points below 256 matches the ten ASCII digits only.\<close>

definition is_digit :: "char \<Rightarrow> bool" where
  "is_digit c = (c \<in> set ''0123456789'')"

text \<open>\<open>re.search(r'(\d+)', result_text)\<close>: the leftmost match, taken greedily. The empty
  list stands for no match.\<close>

definition first_digit_run :: "string \<Rightarrow> string" where
  "first_digit_run t = takeWhile is_digit (dropWhile (\<lambda>c. \<not> is_digit c) t)"

text \<open>The integer that a run of decimal digits writes.\<close>

definition int_of_digits :: "string \<Rightarrow> int" where
  "int_of_digits ds = foldl (\<lambda>a c. 10 * a + (of_char c - 48)) 0 ds"

text \<open>\<open>int(...)\<close> on a run of decimal digits. CPython refuses a text of more digits
  than \<open>sys.get_int_max_str_digits()\<close>, 4300 unless the interpreter is configured
  otherwise, with \<open>ValueError\<close>; leading zeros count.\<close>

definition int_max_str_digits :: nat where
  "int_max_str_digits = 4300"

definition py_int :: "string \<Rightarrow> exn + int" where
  "py_int ds = (if length ds > int_max_str_digits then Inl ValueError else Inr (int_of_digits ds))"

text \<open>\<open>_parse_results\<close>: it has no \<open>try\<close> of its own, so what \<open>int\<close> raises leaves
  it.\<close>

definition parse_results :: "string \<Rightarrow> exn + int" where
  "parse_results result_text =
     (case first_digit_run result_text of [] \<Rightarrow> Inr 0 | d # ds \<Rightarrow> py_int (d # ds))"

text \<open>The statements of the \<open>try\<close> block of \<open>search_person\<close> up to reading the text of
  the results element.\<close>

definition search_form ::
  "('w, 'e) env \<Rightarrow> scraper \<Rightarrow> string \<Rightarrow> string option \<Rightarrow> string option \<Rightarrow> (string, 'w) prog" where
  "search_form env sc name address country =
     with_driver sc (
     and_then (prim (driver_get env OFAC_URL)) (\<lambda>_.
     and_then (prim (wait_presence env ''ctl00_MainContent_txtLastName'')) (\<lambda>el.
     and_then (prim (send_keys env el (Some name))) (\<lambda>_.
     and_then (prim (find_element env ''ctl00_MainContent_txtAddress'')) (\<lambda>el.
     and_then (prim (send_keys env el address)) (\<lambda>_.
     and_then (prim (find_element env ''ctl00_MainContent_ddlCountry'')) (\<lambda>el.
     and_then (prim (select_new env el)) (\<lambda>country_dropdown.
     and_then (prim (select_by_visible_text env country_dropdown country)) (\<lambda>_.
     and_then (prim (find_element env ''ctl00_MainContent_btnSearch'')) (\<lambda>el.
     and_then (prim (click env el)) (\<lambda>_.
     and_then (prim (wait_presence env ''ctl00_MainContent_lblResults'')) (\<lambda>results_element.
     prim (element_text env results_element)))))))))))))"

definition search_person ::
  "('w, 'e) env \<Rightarrow> scraper \<Rightarrow> string \<Rightarrow> string option \<Rightarrow> string option \<Rightarrow> (int, 'w) prog" where
  "search_person env sc name address country =
     and_then (note_call (SearchPerson name address country)) (\<lambda>_.
     try_except
       (and_then (search_form env sc name address country) (\<lambda>t. of_result (parse_results t)))
       (\<lambda>e. case e of
           TimeoutException \<Rightarrow> ret (- 1)
         | NoSuchElementException \<Rightarrow> ret (- 1)
         | _ \<Rightarrow> ret (- 1)))"

text \<open>\<open>str(n)\<close> for a Python integer.\<close>

fun str_nat :: "nat \<Rightarrow> string" where
  "str_nat n = (if n < 10 then [char_of (48 + n)] else str_nat (n div 10) @ [char_of (48 + n mod 10)])"

definition str_int :: "int \<Rightarrow> string" where
  "str_int i = (if i < 0 then CHR ''-'' # str_nat (nat (- i)) else str_nat (nat i))"

definition take_screenshot :: "('w, 'e) env \<Rightarrow> scraper \<Rightarrow> int \<Rightarrow> (unit, 'w) prog" where
  "take_screenshot env sc person_id =
     and_then (note_call (TakeScreenshot person_id)) (\<lambda>_.
     try_except
       (with_driver sc (
        and_then (prim (execute_script env ''window.scrollTo(0, document.body.scrollHeight);'')) (\<lambda>_.
        and_then (prim (\<lambda>w. (Inr (today env w), w))) (\<lambda>today_str.
        prim (save_screenshot env
          (screenshots_dir env @ ''/'' @ today_str @ ''_'' @ str_int person_id @ ''.png''))))))
       (\<lambda>e. ret ()))"

definition reset_search_form :: "('w, 'e) env \<Rightarrow> scraper \<Rightarrow> (unit, 'w) prog" where
  "reset_search_form env sc =
     and_then (note_call ResetSearchForm) (\<lambda>_.
     try_except
       (with_driver sc (
        and_then (prim (find_element env ''ctl00_MainContent_btnReset'')) (\<lambda>el.
        prim (click env el))))
       (\<lambda>e. ret ()))"

text \<open>\<open>if self.driver: self.driver.quit()\<close>\<close>

definition close :: "('w, 'e) env \<Rightarrow> scraper \<Rightarrow> (unit, 'w) prog" where
  "close env sc =
     and_then (note_call Close) (\<lambda>_.
     case driver sc of None \<Rightarrow> ret () | Some d \<Rightarrow> prim (driver_quit env))"

section \<open>database/db_manager.py\<close>

datatype connection = Connection
datatype cursor = Cursor

text \<open>The \<open>DatabaseManager\<close> object: its \<open>conn\<close> and \<open>cursor\<close> attributes.\<close>

record db_manager =
  conn :: "connection option"
  cursor :: "cursor option"

definition with_conn :: "db_manager \<Rightarrow> ('a, 'w) prog \<Rightarrow> ('a, 'w) prog" where
  "with_conn db m = (case conn db of None \<Rightarrow> raise AttributeError | Some c \<Rightarrow> m)"

definition with_cursor :: "db_manager \<Rightarrow> ('a, 'w) prog \<Rightarrow> ('a, 'w) prog" where
  "with_cursor db m = (case cursor db of None \<Rightarrow> raise AttributeError | Some c \<Rightarrow> m)"

definition DatabaseManager_init :: "('w, 'e) env \<Rightarrow> (db_manager, 'w) prog" where
  "DatabaseManager_init env =
     and_then (note_call DatabaseManagerInit) (\<lambda>_.
     try_except
       (and_then (prim (db_connect env)) (\<lambda>_. ret \<lparr>conn = Some Connection, cursor = Some Cursor\<rparr>))
       (\<lambda>e. case e of OperationalError \<Rightarrow> raise e | _ \<Rightarrow> raise e))"

definition fetch_persons_to_process :: "('w, 'e) env \<Rightarrow> db_manager \<Rightarrow> (person list, 'w) prog" where
  "fetch_persons_to_process env db =
     and_then (note_call FetchPersonsToProcess) (\<lambda>_.
     try_except
       (with_cursor db (and_then (note_sql SelectPersons) (\<lambda>_. prim (select_persons env))))
       (\<lambda>e. ret []))"

definition insert_results_bulk ::
  "('w, 'e) env \<Rightarrow> db_manager \<Rightarrow> result_record list \<Rightarrow> (unit, 'w) prog" where
  "insert_results_bulk env db results_data =
     and_then (note_call (InsertResultsBulk results_data)) (\<lambda>_.
     if results_data = [] then ret ()
     else
       try_except
         (and_then
            (with_cursor db
               (and_then (note_sql (InsertValues results_data)) (\<lambda>_.
                prim (execute_values env results_data)))) (\<lambda>_.
          with_conn db (and_then (note_sql Commit) (\<lambda>_. prim (commit env)))))
         (\<lambda>e. with_conn db (and_then (note_sql Rollback) (\<lambda>_. prim (rollback env)))))"

definition insert_single_result ::
  "('w, 'e) env \<Rightarrow> db_manager \<Rightarrow> person \<Rightarrow> int option \<Rightarrow> string \<Rightarrow> (unit, 'w) prog" where
  "insert_single_result env db person_data result_count status =
     and_then (note_call (InsertSingleResult person_data result_count status)) (\<lambda>_.
     try_except
       (and_then (ret (idPersona person_data, nombrePersona person_data, pais person_data,
                       result_count, status)) (\<lambda>params.
        and_then
          (with_cursor db
             (and_then (note_sql (InsertRow params)) (\<lambda>_. prim (execute_insert env params)))) (\<lambda>_.
        with_conn db (and_then (note_sql Commit) (\<lambda>_. prim (commit env))))))
       (\<lambda>e. with_conn db (and_then (note_sql Rollback) (\<lambda>_. prim (rollback env)))))"

definition fetch_incomplete_records_for_report ::
  "('w, 'e) env \<Rightarrow> db_manager \<Rightarrow> (report_row list, 'w) prog" where
  "fetch_incomplete_records_for_report env db =
     and_then (note_call FetchIncompleteRecordsForReport) (\<lambda>_.
     try_except
       (with_cursor db (and_then (note_sql SelectIncomplete) (\<lambda>_. prim (select_incomplete env))))
       (\<lambda>e. ret []))"

definition disconnect :: "('w, 'e) env \<Rightarrow> db_manager \<Rightarrow> (unit, 'w) prog" where
  "disconnect env db =
     and_then (note_call Disconnect) (\<lambda>_.
     and_then (case cursor db of None \<Rightarrow> ret () | Some c \<Rightarrow> prim (cursor_close env)) (\<lambda>_.
     case conn db of None \<Rightarrow> ret () | Some c \<Rightarrow> prim (conn_close env)))"

section \<open>reporting/excel_exporter.py\<close>

definition create_incomplete_records_report ::
  "('w, 'e) env \<Rightarrow> report_row list \<Rightarrow> (unit, 'w) prog" where
  "create_incomplete_records_report env records =
     and_then (note_call (CreateIncompleteRecordsReport records)) (\<lambda>_.
     if records = [] then ret ()
     else try_except (prim (write_report env records)) (\<lambda>e. ret ()))"

section \<open>main.py\<close>

text \<open>\<open>not v\<close> for a value that is \<open>None\<close> or a string.\<close>

definition py_not :: "string option \<Rightarrow> bool" where
  "py_not v = (case v of None \<Rightarrow> True | Some t \<Rightarrow> t = [])"

text \<open>The \<open>for\<close> loop of \<open>categorize_persons\<close>, with the three lists it appends to.\<close>

fun categorize_loop ::
  "person list \<Rightarrow> person list \<times> person list \<times> person list \<Rightarrow>
   person list \<times> person list \<times> person list" where
  "categorize_loop [] acc = acc"
| "categorize_loop (p # ps) (search_queue, incomplete_records, no_master_records) =
     (if idMaestra p = None
        then categorize_loop ps (search_queue, incomplete_records, no_master_records @ [p])
      else if py_not (direccion p) \<or> py_not (pais p)
        then categorize_loop ps (search_queue, incomplete_records @ [p], no_master_records)
      else categorize_loop ps (search_queue @ [p], incomplete_records, no_master_records))"

definition categorize_persons :: "person list \<Rightarrow> person list \<times> person list \<times> person list" where
  "categorize_persons all_persons = categorize_loop all_persons ([], [], [])"

text \<open>The two \<open>for\<close> loops of \<open>process_pre_checks\<close>, each appending one tuple per person.\<close>

definition incomplete_record :: "person \<Rightarrow> result_record" where
  "incomplete_record p = (idPersona p, nombrePersona p, pais p, None, STATUS_INCOMPLETE)"

definition no_master_record :: "person \<Rightarrow> result_record" where
  "no_master_record p = (idPersona p, nombrePersona p, None, None, STATUS_NO_MASTER_RECORD)"

definition bulk_data_of :: "person list \<Rightarrow> person list \<Rightarrow> result_record list" where
  "bulk_data_of incomplete no_master =
     foldl (\<lambda>bulk_data p. bulk_data @ [no_master_record p])
       (foldl (\<lambda>bulk_data p. bulk_data @ [incomplete_record p]) [] incomplete) no_master"

definition process_pre_checks ::
  "('w, 'e) env \<Rightarrow> db_manager \<Rightarrow> person list \<Rightarrow> person list \<Rightarrow> (unit, 'w) prog" where
  "process_pre_checks env db incomplete no_master =
     (let bulk_data = bulk_data_of incomplete no_master
      in if bulk_data \<noteq> [] then insert_results_bulk env db bulk_data else ret ())"

text \<open>The body of the \<open>for\<close> loop of \<open>run_ofac_searches\<close>.\<close>

definition search_step :: "('w, 'e) env \<Rightarrow> db_manager \<Rightarrow> scraper \<Rightarrow> person \<Rightarrow> (unit, 'w) prog" where
  "search_step env db sc p =
     and_then (search_person env sc (nombrePersona p) (direccion p) (pais p)) (\<lambda>result_count.
     and_then
       (if result_count > - 1
        then and_then (insert_single_result env db p (Some result_count) STATUS_OK) (\<lambda>_.
             if result_count > 0 then take_screenshot env sc (idPersona p) else ret ())
        else insert_single_result env db p None STATUS_ERROR) (\<lambda>_.
     reset_search_form env sc))"

fun search_loop :: "('w, 'e) env \<Rightarrow> db_manager \<Rightarrow> scraper \<Rightarrow> person list \<Rightarrow> (unit, 'w) prog" where
  "search_loop env db sc [] = ret ()"
| "search_loop env db sc (p # ps) = and_then (search_step env db sc p) (\<lambda>_. search_loop env db sc ps)"

definition run_ofac_searches :: "('w, 'e) env \<Rightarrow> db_manager \<Rightarrow> person list \<Rightarrow> (unit, 'w) prog" where
  "run_ofac_searches env db search_queue =
     (if search_queue = [] then ret ()
      else
        and_then
          (try_except (and_then (OfacScraper_init env) (\<lambda>sc. ret (Some sc))) (\<lambda>e. ret None))
          (\<lambda>started. case started of
               None \<Rightarrow> ret ()
             | Some sc \<Rightarrow> and_then (search_loop env db sc search_queue) (\<lambda>_. close env sc)))"

definition generate_final_reports :: "('w, 'e) env \<Rightarrow> db_manager \<Rightarrow> (unit, 'w) prog" where
  "generate_final_reports env db =
     and_then (fetch_incomplete_records_for_report env db) (\<lambda>incomplete_records.
     create_incomplete_records_report env incomplete_records)"

text \<open>The statements of the \<open>try\<close> block of \<open>main\<close> after the connection is made.\<close>

definition main_body :: "('w, 'e) env \<Rightarrow> db_manager \<Rightarrow> (unit, 'w) prog" where
  "main_body env db =
     and_then (fetch_persons_to_process env db) (\<lambda>all_persons.
     if all_persons = [] then ret ()
     else
       (case categorize_persons all_persons of
          (search_queue, incomplete, no_master) \<Rightarrow>
            and_then (process_pre_checks env db incomplete no_master) (\<lambda>_.
            and_then (run_ofac_searches env db search_queue) (\<lambda>_.
            generate_final_reports env db))))"

text \<open>\<open>main\<close>: when the constructor of the database manager raises, \<open>db_manager\<close> is still
  \<open>None\<close> in the \<open>finally\<close> clause and nothing is disconnected.\<close>

definition main :: "('w, 'e) env \<Rightarrow> (unit, 'w) prog" where
  "main env s =
     (case DatabaseManager_init env s of
        (Inl e, s') \<Rightarrow> (Inr (), s')
      | (Inr db, s') \<Rightarrow>
          try_finally (try_except (main_body env db) (\<lambda>e. ret ())) (disconnect env db) s')"

section \<open>Reading the record of a run\<close>



definition record_id :: "result_record \<Rightarrow> int" where
  "record_id r = fst r"

definition record_count :: "result_record \<Rightarrow> int option" where
  "record_count r = fst (snd (snd (snd r)))"

definition record_status :: "result_record \<Rightarrow> string" where
  "record_status r = snd (snd (snd (snd r)))"

text \<open>The statements that write rows, and those that would change or remove a stored
  row.\<close>

fun is_write :: "stmt \<Rightarrow> bool" where
  "is_write (InsertValues rs) = True"
| "is_write (InsertRow r) = True"
| "is_write Update = True"
| "is_write Delete = True"
| "is_write q = False"


text \<open>The calls of one completed pass of the loop of \<open>run_ofac_searches\<close> for person
  \<open>p\<close>, where \<open>n\<close> is the count that was stored (\<open>None\<close> after a failed search):
  the search, the insert, a screenshot only after a positive count, and the reset last.\<close>

definition stored_status :: "int option \<Rightarrow> string" where
  "stored_status n = (case n of None \<Rightarrow> STATUS_ERROR | Some k \<Rightarrow> STATUS_OK)"

definition pass_calls :: "person \<Rightarrow> int option \<Rightarrow> call list" where
  "pass_calls p n =
     [SearchPerson (nombrePersona p) (direccion p) (pais p),
      InsertSingleResult p n (stored_status n)] @
     (case n of None \<Rightarrow> [] | Some k \<Rightarrow> if 0 < k then [TakeScreenshot (idPersona p)] else []) @
     [ResetSearchForm]"

text \<open>The calls of a pass that an exception of \<open>insert_single_result\<close> cut short.\<close>

definition cut_calls :: "person \<Rightarrow> int option \<Rightarrow> call list" where
  "cut_calls p n =
     [SearchPerson (nombrePersona p) (direccion p) (pais p),
      InsertSingleResult p n (stored_status n)]"

text \<open>The count that the loop stores for the value that \<open>search_person\<close> returned.\<close>

definition stored_count :: "int \<Rightarrow> int option" where
  "stored_count k = (if k > - 1 then Some k else None)"

section \<open>A scripted stand-in for the libraries\<close>

text \<open>To run the program on concrete inputs: a browser whose results label depends on the
  name typed, and a database whose statement, rollback and query can be made to fail.\<close>

record sim =
  sim_chrome_ok :: bool
  sim_typed :: string
  sim_page :: "(string \<times> (exn + string)) list"
  sim_insert_ok :: bool
  sim_rollback_ok :: bool
  sim_query :: "exn + person list"
  sim_committed :: "result_record list"
  sim_pending :: "result_record list"
  sim_quits :: nat

definition sim_results :: "sim \<Rightarrow> exn + string" where
  "sim_results w =
     (case map_of (sim_page w) (sim_typed w) of None \<Rightarrow> Inl TimeoutException | Some r \<Rightarrow> r)"

definition sim_env :: "(sim, string) env" where
  "sim_env = \<lparr>
     chrome_start = (\<lambda>w. (if sim_chrome_ok w then Inr () else Inl WebDriverException, w)),
     driver_get = (\<lambda>url w. (Inr (), w)),
     wait_presence = (\<lambda>i w.
        if i = ''ctl00_MainContent_lblResults''
        then (case sim_results w of Inl e \<Rightarrow> (Inl e, w) | Inr t \<Rightarrow> (Inr i, w))
        else (Inr i, w)),
     find_element = (\<lambda>i w. (Inr i, w)),
     send_keys = (\<lambda>el v w.
        case v of
          None \<Rightarrow> (Inl WebDriverException, w)
        | Some t \<Rightarrow> (Inr (), if el = ''ctl00_MainContent_txtLastName'' then w\<lparr>sim_typed := t\<rparr> else w)),
     select_new = (\<lambda>el w. (Inr el, w)),
     select_by_visible_text = (\<lambda>el v w.
        case v of None \<Rightarrow> (Inl NoSuchElementException, w) | Some t \<Rightarrow> (Inr (), w)),
     click = (\<lambda>el w.
        (Inr (), if el = ''ctl00_MainContent_btnReset'' then w\<lparr>sim_typed := []\<rparr> else w)),
     element_text = (\<lambda>el w.
        case sim_results w of Inl e \<Rightarrow> (Inl e, w) | Inr t \<Rightarrow> (Inr t, w)),
     execute_script = (\<lambda>js w. (Inr (), w)),
     today = (\<lambda>w. ''20240131''),
     screenshots_dir = ''screenshots'',
     save_screenshot = (\<lambda>path w. (Inr (), w)),
     driver_quit = (\<lambda>w. (Inr (), w\<lparr>sim_quits := Suc (sim_quits w)\<rparr>)),
     db_connect = (\<lambda>w. (Inr (), w)),
     select_persons = (\<lambda>w. (sim_query w, w)),
     execute_values = (\<lambda>rs w.
        if sim_insert_ok w then (Inr (), w\<lparr>sim_pending := sim_pending w @ rs\<rparr>)
        else (Inl OperationalError, w)),
     execute_insert = (\<lambda>r w.
        if sim_insert_ok w then (Inr (), w\<lparr>sim_pending := sim_pending w @ [r]\<rparr>)
        else (Inl OperationalError, w)),
     commit = (\<lambda>w.
        (Inr (), w\<lparr>sim_committed := sim_committed w @ sim_pending w, sim_pending := []\<rparr>)),
     rollback = (\<lambda>w.
        if sim_rollback_ok w then (Inr (), w\<lparr>sim_pending := []\<rparr>) else (Inl DatabaseError, w)),
     select_incomplete = (\<lambda>w.
        (Inr (map (\<lambda>(i, n, c, k, status). (i, n, c, status))
               (filter (\<lambda>r. record_status r = STATUS_INCOMPLETE) (sim_committed w))), w)),
     cursor_close = (\<lambda>w. (Inr (), w)),
     conn_close = (\<lambda>w. (Inr (), w)),
     write_report = (\<lambda>rows w. (Inr (), w))
   \<rparr>"

definition sim_world :: sim where
  "sim_world = \<lparr>
     sim_chrome_ok = True,
     sim_typed = [],
     sim_page = [(''ANA'', Inr ''Lookup Results: 3 Found''),
                 (''BEN'', Inr ''Lookup Results: 0 Found''),
                 (''CARL'', Inl TimeoutException),
                 (''DORA'', Inr ''Your search has not returned any results.'')],
     sim_insert_ok = True,
     sim_rollback_ok = True,
     sim_query = Inr [],
     sim_committed = [],
     sim_pending = [],
     sim_quits = 0
   \<rparr>"

definition start :: "'w \<Rightarrow> 'w st" where
  "start w = \<lparr>world = w, calls = [], sql = []\<rparr>"

text \<open>The object the constructor of \<open>OfacScraper\<close> returns, and the one the constructor
  of \<open>DatabaseManager\<close> returns.\<close>

definition a_scraper :: scraper where
  "a_scraper = \<lparr>driver = Some ChromeDriver\<rparr>"

definition a_db :: db_manager where
  "a_db = \<lparr>conn = Some Connection, cursor = Some Cursor\<rparr>"

definition ana :: person where
  "ana = \<lparr>idPersona = 1, nombrePersona = ''ANA'', idMaestra = Some 1,
          direccion = Some ''Calle 1'', pais = Some ''Chile''\<rparr>"

definition ben :: person where
  "ben = \<lparr>idPersona = 2, nombrePersona = ''BEN'', idMaestra = Some 2,
          direccion = Some ''Calle 2'', pais = Some ''Peru''\<rparr>"

definition carl :: person where
  "carl = \<lparr>idPersona = 3, nombrePersona = ''CARL'', idMaestra = Some 3,
           direccion = Some ''Calle 3'', pais = Some ''Cuba''\<rparr>"

definition eva :: person where
  "eva = \<lparr>idPersona = 5, nombrePersona = ''EVA'', idMaestra = Some 5,
          direccion = Some [], pais = Some ''Chile''\<rparr>"

definition fay :: person where
  "fay = \<lparr>idPersona = 6, nombrePersona = ''FAY'', idMaestra = None,
          direccion = Some ''Calle 6'', pais = Some ''Chile''\<rparr>"


section \<open>What a statement leaves in the record\<close>

text \<open>A statement that makes no call between the components.\<close>

definition keeps_calls :: "('a, 'w) prog \<Rightarrow> bool" where
  "keeps_calls m = (\<forall>s. calls (snd (m s)) = calls s)"

text \<open>A statement that sends only SQL statements of the kind \<open>P\<close>.\<close>

definition sql_adds :: "(stmt \<Rightarrow> bool) \<Rightarrow> ('a, 'w) prog \<Rightarrow> bool" where
  "sql_adds P m = (\<forall>s. \<exists>new. sql (snd (m s)) = sql s @ new \<and> list_all P new)"




section \<open>Proofs\<close>

lemmas prog_defs = ret_def raise_def and_then_def try_except_def try_finally_def prim_def
  note_call_def note_sql_def of_result_def with_driver_def with_conn_def with_cursor_def

subsection \<open>Rules for the record of calls\<close>

lemma keeps_calls_ret: "keeps_calls (ret x)"
  by (simp add: keeps_calls_def ret_def)

lemma keeps_calls_raise: "keeps_calls (raise e)"
  by (simp add: keeps_calls_def raise_def)

lemma keeps_calls_prim: "keeps_calls (prim f)"
  by (simp add: keeps_calls_def prim_def split: prod.splits)

lemma keeps_calls_note_sql: "keeps_calls (note_sql q)"
  by (simp add: keeps_calls_def note_sql_def)

lemma keeps_calls_of_result: "keeps_calls (of_result r)"
  by (simp add: keeps_calls_def of_result_def)

lemma keeps_calls_and_then:
  assumes "keeps_calls m" and "\<And>x. keeps_calls (f x)"
  shows "keeps_calls (and_then m f)"
  unfolding keeps_calls_def
proof
  fix s
  show "calls (snd (and_then m f s)) = calls s"
  proof (cases "m s")
    case (Pair r s1)
    have c1: "calls s1 = calls s"
      using assms(1) Pair by (metis keeps_calls_def snd_conv)
    show ?thesis
    proof (cases r)
      case (Inl e)
      then show ?thesis using Pair c1 by (simp add: and_then_def)
    next
      case (Inr x)
      have "calls (snd (f x s1)) = calls s1"
        using assms(2) by (simp add: keeps_calls_def)
      then show ?thesis using Pair Inr c1 by (simp add: and_then_def)
    qed
  qed
qed

lemma keeps_calls_try_except:
  assumes "keeps_calls m" and "\<And>e. keeps_calls (h e)"
  shows "keeps_calls (try_except m h)"
  unfolding keeps_calls_def
proof
  fix s
  show "calls (snd (try_except m h s)) = calls s"
  proof (cases "m s")
    case (Pair r s1)
    have c1: "calls s1 = calls s"
      using assms(1) Pair by (metis keeps_calls_def snd_conv)
    show ?thesis
    proof (cases r)
      case (Inl e)
      have "calls (snd (h e s1)) = calls s1"
        using assms(2) by (simp add: keeps_calls_def)
      then show ?thesis using Pair Inl c1 by (simp add: try_except_def)
    next
      case (Inr x)
      then show ?thesis using Pair c1 by (simp add: try_except_def)
    qed
  qed
qed

lemma keeps_calls_with_driver: "keeps_calls m \<Longrightarrow> keeps_calls (with_driver sc m)"
  by (simp add: with_driver_def keeps_calls_raise split: option.splits)

lemma keeps_calls_with_conn: "keeps_calls m \<Longrightarrow> keeps_calls (with_conn db m)"
  by (simp add: with_conn_def keeps_calls_raise split: option.splits)

lemma keeps_calls_with_cursor: "keeps_calls m \<Longrightarrow> keeps_calls (with_cursor db m)"
  by (simp add: with_cursor_def keeps_calls_raise split: option.splits)

lemmas keeps_calls_rules = keeps_calls_ret keeps_calls_raise keeps_calls_prim keeps_calls_note_sql
  keeps_calls_of_result
  keeps_calls_and_then keeps_calls_try_except keeps_calls_with_driver keeps_calls_with_conn
  keeps_calls_with_cursor

lemma keeps_callsD: "keeps_calls m \<Longrightarrow> m s = (r, s') \<Longrightarrow> calls s' = calls s"
  by (metis keeps_calls_def snd_conv)

subsection \<open>Rules for the record of SQL statements\<close>

lemma sql_adds_ret: "sql_adds P (ret x)"
  by (simp add: sql_adds_def ret_def)

lemma sql_adds_raise: "sql_adds P (raise e)"
  by (simp add: sql_adds_def raise_def)

lemma sql_adds_prim: "sql_adds P (prim f)"
  by (simp add: sql_adds_def prim_def split: prod.splits)

lemma sql_adds_note_call: "sql_adds P (note_call c)"
  by (simp add: sql_adds_def note_call_def)

lemma sql_adds_of_result: "sql_adds P (of_result r)"
  by (simp add: sql_adds_def of_result_def)

lemma sql_adds_note_sql: "P q \<Longrightarrow> sql_adds P (note_sql q)"
  by (simp add: sql_adds_def note_sql_def)

lemma sql_addsD:
  assumes "sql_adds P m" and "m s = (r, s')"
  obtains new where "sql s' = sql s @ new" and "list_all P new"
  using assms by (metis sql_adds_def snd_conv)

lemma sql_adds_and_then:
  assumes "sql_adds P m" and "\<And>x. sql_adds P (f x)"
  shows "sql_adds P (and_then m f)"
  unfolding sql_adds_def
proof
  fix s
  show "\<exists>new. sql (snd (and_then m f s)) = sql s @ new \<and> list_all P new"
  proof (cases "m s")
    case (Pair r s1)
    obtain n1 where n1: "sql s1 = sql s @ n1" "list_all P n1"
      using assms(1) Pair by (rule sql_addsD)
    show ?thesis
    proof (cases r)
      case (Inl e)
      then show ?thesis using Pair n1 by (simp add: and_then_def)
    next
      case (Inr x)
      obtain s2 r2 where s2: "f x s1 = (r2, s2)" by (cases "f x s1")
      obtain n2 where n2: "sql s2 = sql s1 @ n2" "list_all P n2"
        using assms(2) s2 by (rule sql_addsD)
      have "sql s2 = sql s @ (n1 @ n2) \<and> list_all P (n1 @ n2)"
        using n1 n2 by simp
      then show ?thesis using Pair Inr s2 by (auto simp: and_then_def)
    qed
  qed
qed

lemma sql_adds_try_except:
  assumes "sql_adds P m" and "\<And>e. sql_adds P (h e)"
  shows "sql_adds P (try_except m h)"
  unfolding sql_adds_def
proof
  fix s
  show "\<exists>new. sql (snd (try_except m h s)) = sql s @ new \<and> list_all P new"
  proof (cases "m s")
    case (Pair r s1)
    obtain n1 where n1: "sql s1 = sql s @ n1" "list_all P n1"
      using assms(1) Pair by (rule sql_addsD)
    show ?thesis
    proof (cases r)
      case (Inr x)
      then show ?thesis using Pair n1 by (simp add: try_except_def)
    next
      case (Inl e)
      obtain s2 r2 where s2: "h e s1 = (r2, s2)" by (cases "h e s1")
      obtain n2 where n2: "sql s2 = sql s1 @ n2" "list_all P n2"
        using assms(2) s2 by (rule sql_addsD)
      have "sql s2 = sql s @ (n1 @ n2) \<and> list_all P (n1 @ n2)"
        using n1 n2 by simp
      then show ?thesis using Pair Inl s2 by (auto simp: try_except_def)
    qed
  qed
qed


lemma sql_adds_with_driver: "sql_adds P m \<Longrightarrow> sql_adds P (with_driver sc m)"
  by (simp add: with_driver_def sql_adds_raise split: option.splits)

lemma sql_adds_with_conn: "sql_adds P m \<Longrightarrow> sql_adds P (with_conn db m)"
  by (simp add: with_conn_def sql_adds_raise split: option.splits)

lemma sql_adds_with_cursor: "sql_adds P m \<Longrightarrow> sql_adds P (with_cursor db m)"
  by (simp add: with_cursor_def sql_adds_raise split: option.splits)

lemmas sql_adds_rules = sql_adds_ret sql_adds_raise sql_adds_prim sql_adds_note_call
  sql_adds_of_result
  sql_adds_and_then sql_adds_try_except sql_adds_with_driver sql_adds_with_conn
  sql_adds_with_cursor

lemma sql_adds_none: "sql_adds (\<lambda>q. False) m \<Longrightarrow> m s = (r, s') \<Longrightarrow> sql s' = sql s"
  by (erule sql_addsD) (auto simp: list_all_iff)

subsection \<open>The scraper\<close>

lemma search_form_keeps_calls: "keeps_calls (search_form env sc name address country)"
  unfolding search_form_def by (intro keeps_calls_rules)

lemma search_form_sql: "sql_adds P (search_form env sc name address country)"
  unfolding search_form_def by (intro sql_adds_rules)

subsection \<open>Parsing the results text\<close>

lemma is_digit_val: "is_digit c \<Longrightarrow> (0::int) \<le> of_char c - 48"
  by (auto simp: is_digit_def)

lemma foldl_digits_nonneg:
  "0 \<le> a \<Longrightarrow> \<forall>c\<in>set ds. is_digit c \<Longrightarrow> 0 \<le> foldl (\<lambda>a c. 10 * a + (of_char c - 48)) (a::int) ds"
proof (induction ds arbitrary: a)
  case Nil
  then show ?case by simp
next
  case (Cons d ds)
  have "0 \<le> 10 * a + (of_char d - 48)"
    using Cons.prems is_digit_val [of d] by simp
  then show ?case using Cons by simp
qed

lemma int_of_digits_nonneg: "\<forall>c\<in>set ds. is_digit c \<Longrightarrow> 0 \<le> int_of_digits ds"
  unfolding int_of_digits_def by (rule foldl_digits_nonneg) simp_all

lemma first_digit_run_digits: "\<forall>c\<in>set (first_digit_run t). is_digit c"
  unfolding first_digit_run_def by (auto dest: set_takeWhileD)

lemma parse_results_run:
  "parse_results t = (if first_digit_run t = [] then Inr 0 else py_int (first_digit_run t))"
  by (simp add: parse_results_def split: list.splits)

lemma parse_results_cases:
  obtains "parse_results t = Inl ValueError" | k where "parse_results t = Inr k" and "0 \<le> k"
proof (cases "first_digit_run t = []")
  case True
  then show ?thesis using that(2) [of 0] by (simp add: parse_results_run)
next
  case False
  have "0 \<le> int_of_digits (first_digit_run t)"
    by (rule int_of_digits_nonneg) (rule first_digit_run_digits)
  then show ?thesis
    using False that(1) that(2) [of "int_of_digits (first_digit_run t)"]
    by (cases "int_max_str_digits < length (first_digit_run t)")
       (simp_all add: parse_results_run py_int_def)
qed



subsection \<open>The outcome of a search\<close>

lemma search_person_unfold:
  "search_person env sc name address country s =
     (case search_form env sc name address country (s\<lparr>calls := calls s @ [SearchPerson name address country]\<rparr>) of
        (Inl e, s') \<Rightarrow> (Inr (- 1), s')
      | (Inr t, s') \<Rightarrow> (case parse_results t of Inl e \<Rightarrow> (Inr (- 1), s') | Inr k \<Rightarrow> (Inr k, s')))"
  by (simp add: search_person_def and_then_def try_except_def note_call_def ret_def of_result_def
      split: prod.splits sum.splits exn.splits)

lemma search_person_returns:
  obtains k s' where "search_person env sc name address country s = (Inr k, s')"
    and "k = - 1 \<or> 0 \<le> k"
    and "calls s' = calls s @ [SearchPerson name address country]"
    and "sql s' = sql s"
proof -
  let ?s0 = "s\<lparr>calls := calls s @ [SearchPerson name address country]\<rparr>"
  obtain r s1 where f: "search_form env sc name address country ?s0 = (r, s1)"
    by (cases "search_form env sc name address country ?s0")
  have c: "calls s1 = calls ?s0"
    using search_form_keeps_calls f by (rule keeps_callsD)
  have q: "sql s1 = sql ?s0"
    using search_form_sql f by (rule sql_adds_none)
  show ?thesis
  proof (cases r)
    case (Inl e)
    then have "search_person env sc name address country s = (Inr (- 1), s1)"
      using f by (simp add: search_person_unfold)
    then show ?thesis using that c q by simp
  next
    case (Inr t)
    show ?thesis
    proof (cases t rule: parse_results_cases)
      case 1
      then have "search_person env sc name address country s = (Inr (- 1), s1)"
        using f Inr by (simp add: search_person_unfold)
      then show ?thesis using that c q by simp
    next
      case (2 k)
      then have "search_person env sc name address country s = (Inr k, s1)"
        using f Inr by (simp add: search_person_unfold)
      then show ?thesis using that c q 2 by simp
    qed
  qed
qed










lemmas sim_defs = sim_env_def sim_world_def sim_results_def start_def a_scraper_def a_db_def
  ana_def ben_def carl_def eva_def fay_def

lemmas run_defs = search_person_def search_form_def take_screenshot_def reset_search_form_def
  close_def OfacScraper_init_def DatabaseManager_init_def fetch_persons_to_process_def
  insert_results_bulk_def insert_single_result_def fetch_incomplete_records_for_report_def
  disconnect_def create_incomplete_records_report_def process_pre_checks_def search_step_def
  run_ofac_searches_def generate_final_reports_def main_body_def main_def
  parse_results_def first_digit_run_def is_digit_def int_of_digits_def py_int_def
  int_max_str_digits_def OFAC_URL_def
  STATUS_OK_def STATUS_ERROR_def STATUS_INCOMPLETE_def STATUS_NO_MASTER_RECORD_def





subsection \<open>Best-effort calls\<close>

text \<open>
  Claim C9. \<open>take_screenshot\<close> and \<open>reset_search_form\<close> return normally for every
  scraper, every argument, every state and every behaviour of the driver: whatever the
  driver raises inside them is caught and dropped.
\<close>

theorem best_effort_calls_never_raise:
  "fst (take_screenshot env sc person_id s) = Inr () \<and> fst (reset_search_form env sc s) = Inr ()"
  by (simp add: take_screenshot_def reset_search_form_def and_then_def note_call_def
      try_except_def ret_def split: prod.splits sum.splits)

subsection \<open>Classification\<close>

lemma categorize_loop_filter:
  "categorize_loop ps (sq, inc, nm) =
     (sq @ filter (\<lambda>p. idMaestra p \<noteq> None \<and> \<not> py_not (direccion p) \<and> \<not> py_not (pais p)) ps,
      inc @ filter (\<lambda>p. idMaestra p \<noteq> None \<and> (py_not (direccion p) \<or> py_not (pais p))) ps,
      nm @ filter (\<lambda>p. idMaestra p = None) ps)"
  by (induction ps arbitrary: sq inc nm) auto

lemma categorize_persons_filter:
  "categorize_persons ps =
     (filter (\<lambda>p. idMaestra p \<noteq> None \<and> \<not> py_not (direccion p) \<and> \<not> py_not (pais p)) ps,
      filter (\<lambda>p. idMaestra p \<noteq> None \<and> (py_not (direccion p) \<or> py_not (pais p))) ps,
      filter (\<lambda>p. idMaestra p = None) ps)"
  by (simp add: categorize_persons_def categorize_loop_filter)

text \<open>
  Claim C3. \<open>categorize_persons\<close> returns three lists, each the input filtered in input
  order: no master link gives no-master whatever the address and country are; a master link
  with an empty or absent address or country gives incomplete; everything else is
  searchable. The three are pairwise disjoint, together they hold exactly the input, and the
  empty input gives three empty lists. Being a function of the input alone, it is total and
  deterministic.
\<close>

theorem categorize_persons_partition:
  "categorize_persons ps =
     (filter (\<lambda>p. idMaestra p \<noteq> None \<and> \<not> py_not (direccion p) \<and> \<not> py_not (pais p)) ps,
      filter (\<lambda>p. idMaestra p \<noteq> None \<and> (py_not (direccion p) \<or> py_not (pais p))) ps,
      filter (\<lambda>p. idMaestra p = None) ps)
   \<and> (case categorize_persons ps of (search_queue, incomplete, no_master) \<Rightarrow>
        set search_queue \<inter> set incomplete = {} \<and>
        set search_queue \<inter> set no_master = {} \<and>
        set incomplete \<inter> set no_master = {} \<and>
        set search_queue \<union> set incomplete \<union> set no_master = set ps \<and>
        length search_queue + length incomplete + length no_master = length ps)
   \<and> categorize_persons [] = ([], [], [])"
proof (intro conjI)
  show "categorize_persons ps =
     (filter (\<lambda>p. idMaestra p \<noteq> None \<and> \<not> py_not (direccion p) \<and> \<not> py_not (pais p)) ps,
      filter (\<lambda>p. idMaestra p \<noteq> None \<and> (py_not (direccion p) \<or> py_not (pais p))) ps,
      filter (\<lambda>p. idMaestra p = None) ps)"
    by (rule categorize_persons_filter)
next
  have len: "length (filter (\<lambda>p. idMaestra p \<noteq> None \<and> \<not> py_not (direccion p) \<and> \<not> py_not (pais p)) ps)
      + length (filter (\<lambda>p. idMaestra p \<noteq> None \<and> (py_not (direccion p) \<or> py_not (pais p))) ps)
      + length (filter (\<lambda>p. idMaestra p = None) ps) = length ps"
    by (induction ps) auto
  show "case categorize_persons ps of (search_queue, incomplete, no_master) \<Rightarrow>
        set search_queue \<inter> set incomplete = {} \<and>
        set search_queue \<inter> set no_master = {} \<and>
        set incomplete \<inter> set no_master = {} \<and>
        set search_queue \<union> set incomplete \<union> set no_master = set ps \<and>
        length search_queue + length incomplete + length no_master = length ps"
    unfolding categorize_persons_filter using len by auto
next
  show "categorize_persons [] = ([], [], [])"
    by (simp add: categorize_persons_def)
qed

theorem categorize_persons_partition_witness:
  "categorize_persons [ana, eva, fay, ben] = ([ana, ben], [eva], [fay])
   \<and> categorize_persons [fay\<lparr>direccion := None, pais := None\<rparr>] =
       ([], [], [fay\<lparr>direccion := None, pais := None\<rparr>])"
  using categorize_persons_partition [of "[ana, eva, fay, ben]", THEN conjunct1]
    categorize_persons_partition [of "[fay\<lparr>direccion := None, pais := None\<rparr>]", THEN conjunct1]
  by (simp add: py_not_def ana_def eva_def fay_def ben_def)


subsection \<open>What each method leaves in the record\<close>

lemma noted_call:
  assumes "keeps_calls m" and "and_then (note_call c) (\<lambda>_. m) s = (r, s')"
  shows "calls s' = calls s @ [c]"
proof -
  have "m (s\<lparr>calls := calls s @ [c]\<rparr>) = (r, s')"
    using assms(2) by (simp add: and_then_def note_call_def)
  with assms(1) have "calls s' = calls (s\<lparr>calls := calls s @ [c]\<rparr>)"
    by (rule keeps_callsD)
  then show ?thesis by simp
qed

lemma take_screenshot_returns:
  obtains s' where "take_screenshot env sc i s = (Inr (), s')"
    and "calls s' = calls s @ [TakeScreenshot i]"
proof -
  obtain r s' where run: "take_screenshot env sc i s = (r, s')"
    by (cases "take_screenshot env sc i s")
  have "r = Inr ()"
    using run by (auto simp: take_screenshot_def and_then_def note_call_def
        try_except_def ret_def split: prod.splits sum.splits)
  moreover have "calls s' = calls s @ [TakeScreenshot i]"
    using run unfolding take_screenshot_def
    by (elim noted_call [rotated]) (intro keeps_calls_rules)
  ultimately show ?thesis using that run by simp
qed

lemma reset_search_form_returns:
  obtains s' where "reset_search_form env sc s = (Inr (), s')"
    and "calls s' = calls s @ [ResetSearchForm]"
proof -
  obtain r s' where run: "reset_search_form env sc s = (r, s')"
    by (cases "reset_search_form env sc s")
  have "r = Inr ()"
    using run by (auto simp: reset_search_form_def and_then_def note_call_def
        try_except_def ret_def split: prod.splits sum.splits)
  moreover have "calls s' = calls s @ [ResetSearchForm]"
    using run unfolding reset_search_form_def
    by (elim noted_call [rotated]) (intro keeps_calls_rules)
  ultimately show ?thesis using that run by simp
qed


lemma insert_single_result_calls:
  "insert_single_result env db p n status s = (r, s') \<Longrightarrow>
   calls s' = calls s @ [InsertSingleResult p n status]"
  unfolding insert_single_result_def
  by (elim noted_call [rotated]) (intro keeps_calls_rules)

lemma insert_results_bulk_calls:
  "insert_results_bulk env db rs s = (r, s') \<Longrightarrow> calls s' = calls s @ [InsertResultsBulk rs]"
  unfolding insert_results_bulk_def
  by (elim noted_call [rotated]) (auto intro!: keeps_calls_rules)

lemma OfacScraper_init_calls:
  "OfacScraper_init env s = (r, s') \<Longrightarrow> calls s' = calls s @ [OfacScraperInit]"
  unfolding OfacScraper_init_def
  by (elim noted_call [rotated]) (intro keeps_calls_rules)

lemma DatabaseManager_init_calls:
  "DatabaseManager_init env s = (r, s') \<Longrightarrow> calls s' = calls s @ [DatabaseManagerInit]"
  unfolding DatabaseManager_init_def
  by (elim noted_call [rotated]) (auto intro!: keeps_calls_rules split: exn.splits)

lemma fetch_persons_to_process_calls:
  "fetch_persons_to_process env db s = (r, s') \<Longrightarrow> calls s' = calls s @ [FetchPersonsToProcess]"
  unfolding fetch_persons_to_process_def
  by (elim noted_call [rotated]) (intro keeps_calls_rules)

lemma fetch_incomplete_calls:
  "fetch_incomplete_records_for_report env db s = (r, s') \<Longrightarrow>
   calls s' = calls s @ [FetchIncompleteRecordsForReport]"
  unfolding fetch_incomplete_records_for_report_def
  by (elim noted_call [rotated]) (intro keeps_calls_rules)

lemma create_report_calls:
  "create_incomplete_records_report env rows s = (r, s') \<Longrightarrow>
   calls s' = calls s @ [CreateIncompleteRecordsReport rows]"
  unfolding create_incomplete_records_report_def
  by (elim noted_call [rotated]) (auto intro!: keeps_calls_rules)

lemma disconnect_calls: "disconnect env db s = (r, s') \<Longrightarrow> calls s' = calls s @ [Disconnect]"
  unfolding disconnect_def
  by (elim noted_call [rotated]) (auto intro!: keeps_calls_rules split: option.splits)


subsection \<open>One pass of the loop\<close>

lemma and_then_Inr: "m s = (Inr x, s1) \<Longrightarrow> and_then m f s = f x s1"
  by (simp add: and_then_def)

lemma and_then_Inl: "m s = (Inl e, s1) \<Longrightarrow> and_then m f s = (Inl e, s1)"
  by (simp add: and_then_def)

lemma search_step_run:
  obtains k where "k = - 1 \<or> 0 \<le> k"
    and "fst (search_person env sc (nombrePersona p) (direccion p) (pais p) s) = Inr k"
    and "case search_step env db sc p s of
           (Inr u, s') \<Rightarrow> calls s' = calls s @ pass_calls p (stored_count k)
         | (Inl e, s') \<Rightarrow> calls s' = calls s @ cut_calls p (stored_count k)"
proof -
  obtain k s1 where sp: "search_person env sc (nombrePersona p) (direccion p) (pais p) s = (Inr k, s1)"
    and k: "k = - 1 \<or> 0 \<le> k"
    and c1: "calls s1 = calls s @ [SearchPerson (nombrePersona p) (direccion p) (pais p)]"
    by (rule search_person_returns)
  let ?n = "stored_count k"
  obtain r2 s2 where ins: "insert_single_result env db p ?n (stored_status ?n) s1 = (r2, s2)"
    by (cases "insert_single_result env db p ?n (stored_status ?n) s1")
  have c2: "calls s2 = calls s1 @ [InsertSingleResult p ?n (stored_status ?n)]"
    using ins by (rule insert_single_result_calls)
  have step: "search_step env db sc p s =
      and_then
        (if k > - 1
         then and_then (insert_single_result env db p (Some k) STATUS_OK) (\<lambda>_.
              if k > 0 then take_screenshot env sc (idPersona p) else ret ())
         else insert_single_result env db p None STATUS_ERROR)
        (\<lambda>_. reset_search_form env sc) s1"
    unfolding search_step_def using sp by (rule and_then_Inr)
  have shape: "case search_step env db sc p s of
           (Inr u, s') \<Rightarrow> calls s' = calls s @ pass_calls p ?n
         | (Inl e, s') \<Rightarrow> calls s' = calls s @ cut_calls p ?n"
  proof (cases r2)
    case (Inl e)
    then have "search_step env db sc p s = (Inl e, s2)"
      using step ins
      by (auto simp: stored_count_def stored_status_def and_then_def split: if_splits)
    then show ?thesis using c1 c2 by (simp add: cut_calls_def)
  next
    case (Inr u)
    show ?thesis
    proof (cases "0 < k")
      case True
      obtain s3 where ts: "take_screenshot env sc (idPersona p) s2 = (Inr (), s3)"
        and c3: "calls s3 = calls s2 @ [TakeScreenshot (idPersona p)]"
        by (rule take_screenshot_returns)
      obtain s4 where rs: "reset_search_form env sc s3 = (Inr (), s4)"
        and c4: "calls s4 = calls s3 @ [ResetSearchForm]"
        by (rule reset_search_form_returns)
      have "search_step env db sc p s = (Inr (), s4)"
        using step ins Inr True ts rs
        by (auto simp: stored_count_def stored_status_def and_then_def)
      then show ?thesis using c1 c2 c3 c4 True
        by (simp add: pass_calls_def stored_count_def)
    next
      case False
      obtain s4 where rs: "reset_search_form env sc s2 = (Inr (), s4)"
        and c4: "calls s4 = calls s2 @ [ResetSearchForm]"
        by (rule reset_search_form_returns)
      have "search_step env db sc p s = (Inr (), s4)"
        using step ins Inr False rs
        by (auto simp: stored_count_def stored_status_def and_then_def ret_def split: if_splits)
      then show ?thesis using c1 c2 c4 False
        by (auto simp: pass_calls_def stored_count_def)
    qed
  qed
  show ?thesis using that [of k] k sp shape by simp
qed


subsection \<open>The statements each method sends\<close>






lemma note_sql_first:
  assumes "sql_adds P m" and "and_then (note_sql q) (\<lambda>_. m) s = (r, s')"
  shows "\<exists>rest. sql s' = sql s @ q # rest \<and> list_all P rest"
proof -
  have "m (s\<lparr>sql := sql s @ [q]\<rparr>) = (r, s')"
    using assms(2) by (simp add: and_then_def note_sql_def)
  with assms(1) obtain new where "sql s' = sql (s\<lparr>sql := sql s @ [q]\<rparr>) @ new" and "list_all P new"
    by (rule sql_addsD)
  then show ?thesis by simp
qed



lemma insert_results_bulk_alt:
  assumes "cursor db = Some c" and "rs \<noteq> []"
  shows "insert_results_bulk env db rs s =
     and_then (note_sql (InsertValues rs)) (\<lambda>_.
       try_except
         (and_then (prim (execute_values env rs)) (\<lambda>_.
          with_conn db (and_then (note_sql Commit) (\<lambda>_. prim (commit env)))))
         (\<lambda>e. with_conn db (and_then (note_sql Rollback) (\<lambda>_. prim (rollback env)))))
       (s\<lparr>calls := calls s @ [InsertResultsBulk rs]\<rparr>)"
  using assms
  by (simp add: insert_results_bulk_def and_then_def try_except_def note_call_def note_sql_def
      ret_def with_cursor_def)

lemma insert_results_bulk_sql:
  assumes "cursor db = Some c" and "rs \<noteq> []" and "insert_results_bulk env db rs s = (r, s')"
  shows "\<exists>rest. sql s' = sql s @ InsertValues rs # rest \<and> list_all (\<lambda>q. \<not> is_write q) rest"
proof -
  have "\<exists>rest. sql s' = sql (s\<lparr>calls := calls s @ [InsertResultsBulk rs]\<rparr>) @ InsertValues rs # rest
           \<and> list_all (\<lambda>q. \<not> is_write q) rest"
    using assms(3) unfolding insert_results_bulk_alt [OF assms(1,2)]
    by (elim note_sql_first [rotated]) (intro sql_adds_rules sql_adds_note_sql; simp)
  then show ?thesis by simp
qed

subsection \<open>One pass of the loop, statement by statement\<close>



subsection \<open>The whole loop\<close>

lemma search_loop_run:
  "\<exists>ns. case search_loop env db sc q s of
      (Inr u, s') \<Rightarrow> length ns = length q \<and> calls s' = calls s @ concat (map2 pass_calls q ns)
    | (Inl e, s') \<Rightarrow> length ns < length q \<and>
        (\<exists>n. calls s' = calls s @ concat (map2 pass_calls q ns) @ cut_calls (q ! length ns) n)"
proof (induction q arbitrary: s)
  case Nil
  show ?case by (simp add: ret_def)
next
  case (Cons p ps)
  obtain k where shape: "case search_step env db sc p s of
           (Inr u, s') \<Rightarrow> calls s' = calls s @ pass_calls p (stored_count k)
         | (Inl e, s') \<Rightarrow> calls s' = calls s @ cut_calls p (stored_count k)"
    by (rule search_step_run)
  obtain r s1 where st: "search_step env db sc p s = (r, s1)"
    by (cases "search_step env db sc p s")
  show ?case
  proof (cases r)
    case (Inl e)
    have "search_loop env db sc (p # ps) s = (Inl e, s1)"
      using st Inl by (simp add: and_then_def)
    moreover have "calls s1 = calls s @ cut_calls p (stored_count k)"
      using shape st Inl by simp
    ultimately show ?thesis
      by (intro exI [of _ "[]"]) auto
  next
    case (Inr u)
    have run: "search_loop env db sc (p # ps) s = search_loop env db sc ps s1"
      using st Inr by (simp add: and_then_def)
    have c1: "calls s1 = calls s @ pass_calls p (stored_count k)"
      using shape st Inr by simp
    obtain ns where ih: "case search_loop env db sc ps s1 of
        (Inr u, s') \<Rightarrow> length ns = length ps \<and> calls s' = calls s1 @ concat (map2 pass_calls ps ns)
      | (Inl e, s') \<Rightarrow> length ns < length ps \<and>
          (\<exists>n. calls s' = calls s1 @ concat (map2 pass_calls ps ns) @ cut_calls (ps ! length ns) n)"
      using Cons.IH [of s1] by (rule exE)
    show ?thesis
      using ih c1 unfolding run
      by (intro exI [of _ "stored_count k # ns"]) (auto split: prod.splits sum.splits)
  qed
qed


subsection \<open>The outcome mapping\<close>







subsection \<open>The reset after every record\<close>

lemma pass_calls_reset:
  "count_list (pass_calls p n) ResetSearchForm = 1 \<and> last (pass_calls p n) = ResetSearchForm
   \<and> take 2 (pass_calls p n) = cut_calls p n \<and> count_list (cut_calls p n) ResetSearchForm = 0"
  by (simp add: pass_calls_def cut_calls_def split: option.splits)

lemma count_list_append: "count_list (xs @ ys) x = count_list xs x + count_list ys x"
  by (induction xs) auto

lemma count_list_passes:
  "count_list (concat (map2 pass_calls q ns)) ResetSearchForm = min (length q) (length ns)"
proof (induction q arbitrary: ns)
  case Nil
  show ?case by simp
next
  case (Cons p ps)
  show ?case
  proof (cases ns)
    case Nil
    then show ?thesis by simp
  next
    case (Cons n ns')
    then show ?thesis
      using Cons.IH [of ns'] pass_calls_reset [of p n] by (simp add: count_list_append)
  qed
qed

text \<open>
  Claim C5. The loop of \<open>run_ofac_searches\<close> over the queue \<open>q\<close>, started in any state
  with any scraper. When the loop ends normally it has made, for each person of the queue
  in order, the calls of one pass: the search, the insert of the outcome, the screenshot
  after a positive count, and then \<open>reset_search_form\<close>; the next person's search comes
  right after that reset. So \<open>reset_search_form\<close> is called once per person, as many times
  as the queue is long, after the sentinel as after a count. The loop can end early only by
  an exception that leaves \<open>insert_single_result\<close>; then every person before that one had
  a whole pass with its reset, and the pass that raised stops after the insert, without a
  reset. A pass has exactly one reset and it is its last call, whatever the stored count.
\<close>

theorem reset_once_per_record:
  "(\<exists>ns. case search_loop env db sc q s of
      (Inr u, s') \<Rightarrow>
        length ns = length q \<and>
        calls s' = calls s @ concat (map2 pass_calls q ns) \<and>
        count_list (drop (length (calls s)) (calls s')) ResetSearchForm = length q
    | (Inl e, s') \<Rightarrow>
        length ns < length q \<and>
        (\<exists>n. calls s' = calls s @ concat (map2 pass_calls q ns) @ cut_calls (q ! length ns) n) \<and>
        count_list (drop (length (calls s)) (calls s')) ResetSearchForm = length ns)
   \<and> (\<forall>p n. count_list (pass_calls p n) ResetSearchForm = 1
          \<and> last (pass_calls p n) = ResetSearchForm
          \<and> hd (pass_calls p n) = SearchPerson (nombrePersona p) (direccion p) (pais p)
          \<and> pass_calls p n ! 1 = InsertSingleResult p n (stored_status n)
          \<and> count_list (cut_calls p n) ResetSearchForm = 0)"
proof (intro conjI allI)
  obtain ns where ns: "case search_loop env db sc q s of
      (Inr u, s') \<Rightarrow> length ns = length q \<and> calls s' = calls s @ concat (map2 pass_calls q ns)
    | (Inl e, s') \<Rightarrow> length ns < length q \<and>
        (\<exists>n. calls s' = calls s @ concat (map2 pass_calls q ns) @ cut_calls (q ! length ns) n)"
    using search_loop_run [where env = env and db = db and sc = sc and q = q and s = s] by (rule exE)
  obtain r s' where run: "search_loop env db sc q s = (r, s')"
    by (cases "search_loop env db sc q s")
  have "case (r, s') of
      (Inr u, s') \<Rightarrow>
        length ns = length q \<and>
        calls s' = calls s @ concat (map2 pass_calls q ns) \<and>
        count_list (drop (length (calls s)) (calls s')) ResetSearchForm = length q
    | (Inl e, s') \<Rightarrow>
        length ns < length q \<and>
        (\<exists>n. calls s' = calls s @ concat (map2 pass_calls q ns) @ cut_calls (q ! length ns) n) \<and>
        count_list (drop (length (calls s)) (calls s')) ResetSearchForm = length ns"
  proof (cases r)
    case (Inl e)
    then show ?thesis
      using ns run pass_calls_reset
      by (auto simp: count_list_append count_list_passes)
  next
    case (Inr u)
    then show ?thesis
      using ns run by (auto simp: count_list_passes)
  qed
  then show "\<exists>ns. case search_loop env db sc q s of
      (Inr u, s') \<Rightarrow>
        length ns = length q \<and>
        calls s' = calls s @ concat (map2 pass_calls q ns) \<and>
        count_list (drop (length (calls s)) (calls s')) ResetSearchForm = length q
    | (Inl e, s') \<Rightarrow>
        length ns < length q \<and>
        (\<exists>n. calls s' = calls s @ concat (map2 pass_calls q ns) @ cut_calls (q ! length ns) n) \<and>
        count_list (drop (length (calls s)) (calls s')) ResetSearchForm = length ns"
    unfolding run by (rule exI)
next
  fix p n
  show "count_list (pass_calls p n) ResetSearchForm = 1" using pass_calls_reset [of p n] by simp
  show "last (pass_calls p n) = ResetSearchForm" using pass_calls_reset [of p n] by simp
  show "hd (pass_calls p n) = SearchPerson (nombrePersona p) (direccion p) (pais p)"
    by (simp add: pass_calls_def)
  show "pass_calls p n ! 1 = InsertSingleResult p n (stored_status n)"
    by (simp add: pass_calls_def)
  show "count_list (cut_calls p n) ResetSearchForm = 0" using pass_calls_reset [of p n] by simp
qed


subsection \<open>The pre-checks\<close>

lemma foldl_snoc_map: "foldl (\<lambda>acc p. acc @ [f p]) acc xs = acc @ map f xs"
  by (induction xs arbitrary: acc) simp_all

lemma bulk_data_of_map:
  "bulk_data_of incomplete no_master =
     map incomplete_record incomplete @ map no_master_record no_master"
  by (simp add: bulk_data_of_def foldl_snoc_map)

lemma bulk_data_of_empty: "bulk_data_of incomplete no_master = [] \<longleftrightarrow> incomplete = [] \<and> no_master = []"
  by (simp add: bulk_data_of_map)

lemma process_pre_checks_calls:
  "calls (snd (process_pre_checks env db incomplete no_master s)) =
     calls s @ (if incomplete = [] \<and> no_master = [] then []
                else [InsertResultsBulk (bulk_data_of incomplete no_master)])"
proof (cases "incomplete = [] \<and> no_master = []")
  case True
  then show ?thesis by (simp add: process_pre_checks_def bulk_data_of_map ret_def)
next
  case False
  then have ne: "bulk_data_of incomplete no_master \<noteq> []" by (simp add: bulk_data_of_empty)
  obtain r s' where run: "insert_results_bulk env db (bulk_data_of incomplete no_master) s = (r, s')"
    by (cases "insert_results_bulk env db (bulk_data_of incomplete no_master) s")
  have "calls s' = calls s @ [InsertResultsBulk (bulk_data_of incomplete no_master)]"
    using run by (rule insert_results_bulk_calls)
  then show ?thesis using False ne run by (simp add: process_pre_checks_def)
qed

lemma process_pre_checks_sql:
  assumes "cursor db \<noteq> None"
  shows "filter is_write (drop (length (sql s)) (sql (snd (process_pre_checks env db incomplete no_master s)))) =
     (if incomplete = [] \<and> no_master = [] then []
      else [InsertValues (bulk_data_of incomplete no_master)])"
proof (cases "incomplete = [] \<and> no_master = []")
  case True
  then show ?thesis by (simp add: process_pre_checks_def bulk_data_of_map ret_def)
next
  case False
  then have ne: "bulk_data_of incomplete no_master \<noteq> []" by (simp add: bulk_data_of_empty)
  obtain cu where cu: "cursor db = Some cu" using assms by auto
  obtain r s' where run: "insert_results_bulk env db (bulk_data_of incomplete no_master) s = (r, s')"
    by (cases "insert_results_bulk env db (bulk_data_of incomplete no_master) s")
  obtain rest where "sql s' = sql s @ InsertValues (bulk_data_of incomplete no_master) # rest"
    and "list_all (\<lambda>q. \<not> is_write q) rest"
    using insert_results_bulk_sql [OF cu ne run] by blast
  then show ?thesis using False ne run
    by (simp add: process_pre_checks_def list_all_iff filter_empty_conv)
qed

text \<open>
  Claim C4. For \<open>N\<close> incomplete and \<open>M\<close> no-master persons, \<open>process_pre_checks\<close>
  builds \<open>N + M\<close> records, none with a match count: first one per incomplete person, in
  order, with that person's country (which may be absent) and the status INCOMPLETE, then
  one per no-master person with no country and the status NO_MASTER_RECORD. With both lists
  empty it does nothing at all: no call, no statement, the state unchanged. Otherwise it
  makes exactly one call, \<open>insert_results_bulk\<close> with all the records, and, through a
  database manager that has a cursor, that call sends exactly one statement that writes
  rows: one INSERT with all of them.
\<close>

theorem pre_checks_one_bulk_write:
  "bulk_data_of incomplete no_master =
     map (\<lambda>p. (idPersona p, nombrePersona p, pais p, None, STATUS_INCOMPLETE)) incomplete @
     map (\<lambda>p. (idPersona p, nombrePersona p, None, None, STATUS_NO_MASTER_RECORD)) no_master
   \<and> length (bulk_data_of incomplete no_master) = length incomplete + length no_master
   \<and> map record_count (bulk_data_of incomplete no_master) =
       replicate (length incomplete + length no_master) None
   \<and> process_pre_checks env db [] [] s = (Inr (), s)
   \<and> calls (snd (process_pre_checks env db incomplete no_master s)) =
       calls s @ (if incomplete = [] \<and> no_master = [] then []
                  else [InsertResultsBulk (bulk_data_of incomplete no_master)])
   \<and> (cursor db \<noteq> None \<longrightarrow>
        filter is_write
          (drop (length (sql s)) (sql (snd (process_pre_checks env db incomplete no_master s)))) =
        (if incomplete = [] \<and> no_master = [] then []
         else [InsertValues (bulk_data_of incomplete no_master)]))"
proof (intro conjI impI)
  have m: "bulk_data_of incomplete no_master =
     map (\<lambda>p. (idPersona p, nombrePersona p, pais p, None, STATUS_INCOMPLETE)) incomplete @
     map (\<lambda>p. (idPersona p, nombrePersona p, None, None, STATUS_NO_MASTER_RECORD)) no_master"
    unfolding bulk_data_of_map by (simp add: incomplete_record_def no_master_record_def)
  show "bulk_data_of incomplete no_master =
     map (\<lambda>p. (idPersona p, nombrePersona p, pais p, None, STATUS_INCOMPLETE)) incomplete @
     map (\<lambda>p. (idPersona p, nombrePersona p, None, None, STATUS_NO_MASTER_RECORD)) no_master"
    by (rule m)
  show "length (bulk_data_of incomplete no_master) = length incomplete + length no_master"
    by (simp add: bulk_data_of_map)
  show "map record_count (bulk_data_of incomplete no_master) =
       replicate (length incomplete + length no_master) None"
    unfolding m by (simp add: record_count_def replicate_add map_replicate_const [symmetric] comp_def)
  show "process_pre_checks env db [] [] s = (Inr (), s)"
    by (simp add: process_pre_checks_def bulk_data_of_map ret_def)
  show "calls (snd (process_pre_checks env db incomplete no_master s)) =
       calls s @ (if incomplete = [] \<and> no_master = [] then []
                  else [InsertResultsBulk (bulk_data_of incomplete no_master)])"
    by (rule process_pre_checks_calls)
next
  assume "cursor db \<noteq> None"
  then show "filter is_write
          (drop (length (sql s)) (sql (snd (process_pre_checks env db incomplete no_master s)))) =
        (if incomplete = [] \<and> no_master = [] then []
         else [InsertValues (bulk_data_of incomplete no_master)])"
    by (rule process_pre_checks_sql)
qed

theorem pre_checks_one_bulk_write_witness:
  "filter is_write (sql (snd (process_pre_checks sim_env a_db [eva] [fay] (start sim_world)))) =
     [InsertValues [(5, ''EVA'', Some ''Chile'', None, STATUS_INCOMPLETE),
                    (6, ''FAY'', None, None, STATUS_NO_MASTER_RECORD)]]
   \<and> calls (snd (process_pre_checks sim_env a_db [eva] [fay] (start sim_world))) =
     [InsertResultsBulk [(5, ''EVA'', Some ''Chile'', None, STATUS_INCOMPLETE),
                         (6, ''FAY'', None, None, STATUS_NO_MASTER_RECORD)]]
   \<and> filter is_write (sql (snd (process_pre_checks sim_env a_db [] [] (start sim_world)))) = []"
proof -
  have cur: "cursor a_db \<noteq> None" by (simp add: a_db_def)
  note t1 = pre_checks_one_bulk_write [of "[eva]" "[fay]" sim_env a_db "start sim_world"]
  note t0 = pre_checks_one_bulk_write [of "[]" "[]" sim_env a_db "start sim_world"]
  have b: "bulk_data_of [eva] [fay] =
      [(5, ''EVA'', Some ''Chile'', None, STATUS_INCOMPLETE),
       (6, ''FAY'', None, None, STATUS_NO_MASTER_RECORD)]"
    using t1 [THEN conjunct1] by (simp add: eva_def fay_def)
  have q1: "filter is_write (drop (length (sql (start sim_world)))
      (sql (snd (process_pre_checks sim_env a_db [eva] [fay] (start sim_world))))) =
      [InsertValues (bulk_data_of [eva] [fay])]"
    using t1 [THEN conjunct2, THEN conjunct2, THEN conjunct2, THEN conjunct2, THEN conjunct2,
        THEN mp, OF cur] by simp
  have c1: "calls (snd (process_pre_checks sim_env a_db [eva] [fay] (start sim_world))) =
      calls (start sim_world) @ [InsertResultsBulk (bulk_data_of [eva] [fay])]"
    using t1 [THEN conjunct2, THEN conjunct2, THEN conjunct2, THEN conjunct2, THEN conjunct1] by simp
  have q0: "filter is_write (drop (length (sql (start sim_world)))
      (sql (snd (process_pre_checks sim_env a_db [] [] (start sim_world))))) = []"
    using t0 [THEN conjunct2, THEN conjunct2, THEN conjunct2, THEN conjunct2, THEN conjunct2,
        THEN mp, OF cur] by simp
  show ?thesis using q1 c1 q0 unfolding b by (simp add: start_def)
qed


subsection \<open>Skipping the search phase\<close>

lemma OfacScraper_init_unfold:
  "OfacScraper_init env s =
     (case chrome_start env (world s) of
        (Inl e, w') \<Rightarrow> (Inl e, s\<lparr>calls := calls s @ [OfacScraperInit], world := w'\<rparr>)
      | (Inr u, w') \<Rightarrow>
          (Inr \<lparr>driver = Some ChromeDriver\<rparr>, s\<lparr>calls := calls s @ [OfacScraperInit], world := w'\<rparr>))"
  by (simp add: OfacScraper_init_def and_then_def try_except_def note_call_def prim_def ret_def
      raise_def split: prod.splits sum.splits)

lemma run_ofac_searches_empty: "run_ofac_searches env db [] s = (Inr (), s)"
  by (simp add: run_ofac_searches_def ret_def)

lemma run_ofac_searches_no_session:
  assumes "search_queue \<noteq> []" and "chrome_start env (world s) = (Inl e, w')"
  shows "run_ofac_searches env db search_queue s =
     (Inr (), s\<lparr>calls := calls s @ [OfacScraperInit], world := w'\<rparr>)"
  using assms
  by (simp add: run_ofac_searches_def OfacScraper_init_unfold and_then_def try_except_def ret_def)

lemma generate_final_reports_calls:
  "\<exists>rows s'. generate_final_reports env db s = (Inr (), s') \<and>
     calls s' = calls s @ [FetchIncompleteRecordsForReport, CreateIncompleteRecordsReport rows]"
proof -
  obtain r1 s1 where f: "fetch_incomplete_records_for_report env db s = (r1, s1)"
    by (cases "fetch_incomplete_records_for_report env db s")
  have "\<exists>rows. r1 = Inr rows"
    using f by (auto simp: fetch_incomplete_records_for_report_def and_then_def note_call_def
        try_except_def ret_def split: prod.splits sum.splits)
  then obtain rows where rows: "r1 = Inr rows" by blast
  have c1: "calls s1 = calls s @ [FetchIncompleteRecordsForReport]"
    using f by (rule fetch_incomplete_calls)
  obtain r2 s2 where g: "create_incomplete_records_report env rows s1 = (r2, s2)"
    by (cases "create_incomplete_records_report env rows s1")
  have r2: "r2 = Inr ()"
    using g by (auto simp: create_incomplete_records_report_def and_then_def note_call_def
        try_except_def ret_def split: prod.splits sum.splits if_splits)
  have c2: "calls s2 = calls s1 @ [CreateIncompleteRecordsReport rows]"
    using g by (rule create_report_calls)
  have "generate_final_reports env db s = (Inr (), s2)"
    using f rows g r2 by (simp add: generate_final_reports_def and_then_def)
  then show ?thesis using c1 c2 by simp
qed

lemma main_body_after_fetch:
  assumes "fetch_persons_to_process env db s = (Inr all_persons, s1)" and "all_persons \<noteq> []"
    and "process_pre_checks env db (fst (snd (categorize_persons all_persons)))
           (snd (snd (categorize_persons all_persons))) s1 = (Inr (), s2)"
  shows "main_body env db s =
     and_then (run_ofac_searches env db (fst (categorize_persons all_persons)))
       (\<lambda>_. generate_final_reports env db) s2"
proof -
  obtain q inc nm where c: "categorize_persons all_persons = (q, inc, nm)"
    by (cases "categorize_persons all_persons")
  have "process_pre_checks env db inc nm s1 = (Inr (), s2)"
    using assms(3) c by simp
  then show ?thesis
    using assms(1,2) c by (simp add: main_body_def and_then_def)
qed

text \<open>
  Claim C6. With an empty queue \<open>run_ofac_searches\<close> returns at once and leaves the state
  as it was: the constructor of \<open>OfacScraper\<close> is not called and the browser is not
  started. With a queue that is not empty, when starting the browser raises, the
  constructor has been called once, \<open>run_ofac_searches\<close> returns normally, and nothing
  else has happened: no search, no insert, no second attempt. In \<open>main\<close>, once the persons
  were fetched and the pre-checks returned, either case leads straight to
  \<open>generate_final_reports\<close>, run from the state the pre-checks left (plus the failed
  constructor call); and \<open>generate_final_reports\<close> always returns after fetching the
  incomplete records and handing them to the report writer.
\<close>

theorem search_phase_skipped:
  "run_ofac_searches env db [] s = (Inr (), s)
   \<and> (\<forall>e w'. search_queue \<noteq> [] \<and> chrome_start env (world s) = (Inl e, w') \<longrightarrow>
        run_ofac_searches env db search_queue s =
          (Inr (), s\<lparr>calls := calls s @ [OfacScraperInit], world := w'\<rparr>))
   \<and> (\<forall>all_persons s1 s2.
        fetch_persons_to_process env db s = (Inr all_persons, s1) \<and> all_persons \<noteq> [] \<and>
        process_pre_checks env db (fst (snd (categorize_persons all_persons)))
          (snd (snd (categorize_persons all_persons))) s1 = (Inr (), s2) \<longrightarrow>
        (fst (categorize_persons all_persons) = [] \<longrightarrow>
           main_body env db s = generate_final_reports env db s2) \<and>
        (\<forall>e w'. fst (categorize_persons all_persons) \<noteq> [] \<and>
                chrome_start env (world s2) = (Inl e, w') \<longrightarrow>
           main_body env db s =
             generate_final_reports env db (s2\<lparr>calls := calls s2 @ [OfacScraperInit], world := w'\<rparr>)))
   \<and> (\<exists>rows s'. generate_final_reports env db s = (Inr (), s') \<and>
        calls s' = calls s @ [FetchIncompleteRecordsForReport, CreateIncompleteRecordsReport rows])"
proof (intro conjI allI impI)
  show "run_ofac_searches env db [] s = (Inr (), s)" by (rule run_ofac_searches_empty)
next
  fix e w'
  assume "search_queue \<noteq> [] \<and> chrome_start env (world s) = (Inl e, w')"
  then show "run_ofac_searches env db search_queue s =
          (Inr (), s\<lparr>calls := calls s @ [OfacScraperInit], world := w'\<rparr>)"
    by (simp add: run_ofac_searches_no_session)
next
  fix all_persons s1 s2
  assume a: "fetch_persons_to_process env db s = (Inr all_persons, s1) \<and> all_persons \<noteq> [] \<and>
        process_pre_checks env db (fst (snd (categorize_persons all_persons)))
          (snd (snd (categorize_persons all_persons))) s1 = (Inr (), s2)"
  assume "fst (categorize_persons all_persons) = []"
  then show "main_body env db s = generate_final_reports env db s2"
    using a by (simp add: main_body_after_fetch [of env db s all_persons s1 s2]
        run_ofac_searches_empty and_then_def)
next
  fix all_persons s1 s2 e w'
  assume a: "fetch_persons_to_process env db s = (Inr all_persons, s1) \<and> all_persons \<noteq> [] \<and>
        process_pre_checks env db (fst (snd (categorize_persons all_persons)))
          (snd (snd (categorize_persons all_persons))) s1 = (Inr (), s2)"
  assume b: "fst (categorize_persons all_persons) \<noteq> [] \<and>
                chrome_start env (world s2) = (Inl e, w')"
  have "run_ofac_searches env db (fst (categorize_persons all_persons)) s2 =
      (Inr (), s2\<lparr>calls := calls s2 @ [OfacScraperInit], world := w'\<rparr>)"
    using b by (simp add: run_ofac_searches_no_session)
  then show "main_body env db s =
      generate_final_reports env db (s2\<lparr>calls := calls s2 @ [OfacScraperInit], world := w'\<rparr>)"
    using a by (simp add: main_body_after_fetch [of env db s all_persons s1 s2] and_then_def)
next
  show "\<exists>rows s'. generate_final_reports env db s = (Inr (), s') \<and>
        calls s' = calls s @ [FetchIncompleteRecordsForReport, CreateIncompleteRecordsReport rows]"
    by (rule generate_final_reports_calls)
qed


theorem search_phase_skipped_witness:
  "run_ofac_searches sim_env a_db [ana]
     (start (sim_world\<lparr>sim_chrome_ok := False, sim_query := Inr [ana, eva]\<rparr>)) =
     (Inr (), (start (sim_world\<lparr>sim_chrome_ok := False, sim_query := Inr [ana, eva]\<rparr>))
                \<lparr>calls := [OfacScraperInit]\<rparr>)
   \<and> calls (snd (main_body sim_env a_db
        (start (sim_world\<lparr>sim_chrome_ok := False, sim_query := Inr [ana, eva]\<rparr>)))) =
     [FetchPersonsToProcess,
      InsertResultsBulk [(5, ''EVA'', Some ''Chile'', None, STATUS_INCOMPLETE)],
      OfacScraperInit,
      FetchIncompleteRecordsForReport,
      CreateIncompleteRecordsReport [(5, ''EVA'', Some ''Chile'', STATUS_INCOMPLETE)]]"
proof -
  let ?W = "sim_world\<lparr>sim_chrome_ok := False, sim_query := Inr [ana, eva]\<rparr>"
  let ?f = "fetch_persons_to_process sim_env a_db (start ?W)"
  let ?p = "process_pre_checks sim_env a_db [eva] [] (snd ?f)"
  note t = search_phase_skipped [where env = sim_env and db = a_db and s = "start ?W"
      and search_queue = "[ana]"]
  have h2: "[ana] \<noteq> [] \<and> chrome_start sim_env (world (start ?W)) = (Inl WebDriverException, ?W)"
    by (simp add: sim_defs)
  have r: "run_ofac_searches sim_env a_db [ana] (start ?W) =
      (Inr (), (start ?W)\<lparr>calls := calls (start ?W) @ [OfacScraperInit], world := ?W\<rparr>)"
    using t [THEN conjunct2, THEN conjunct1, rule_format, OF h2] .
  have cat: "categorize_persons [ana, eva] = ([ana], [eva], [])"
    by (simp add: categorize_persons_def py_not_def ana_def eva_def)
  have f1: "fst ?f = Inr [ana, eva]"
    by (simp add: fetch_persons_to_process_def prog_defs sim_env_def sim_world_def start_def a_db_def)
  have p1: "fst ?p = Inr ()"
    by (simp add: run_defs prog_defs sim_defs bulk_data_of_def incomplete_record_def Let_def)
  have h3: "?f = (Inr [ana, eva], snd ?f) \<and> [ana, eva] \<noteq> [] \<and>
      process_pre_checks sim_env a_db (fst (snd (categorize_persons [ana, eva])))
        (snd (snd (categorize_persons [ana, eva]))) (snd ?f) = (Inr (), snd ?p)"
    using f1 p1 unfolding cat by (simp add: prod_eq_iff)
  have h4: "fst (categorize_persons [ana, eva]) \<noteq> [] \<and>
      chrome_start sim_env (world (snd ?p)) = (Inl WebDriverException, world (snd ?p))"
    unfolding cat
    by (simp add: run_defs prog_defs sim_defs bulk_data_of_def incomplete_record_def Let_def)
  have m: "main_body sim_env a_db (start ?W) =
      generate_final_reports sim_env a_db
        ((snd ?p)\<lparr>calls := calls (snd ?p) @ [OfacScraperInit], world := world (snd ?p)\<rparr>)"
    using t [THEN conjunct2, THEN conjunct2, THEN conjunct1, rule_format, OF h3,
        THEN conjunct2, rule_format, OF h4] .
  have c: "calls (snd (main_body sim_env a_db (start ?W))) =
     [FetchPersonsToProcess,
      InsertResultsBulk [(5, ''EVA'', Some ''Chile'', None, STATUS_INCOMPLETE)],
      OfacScraperInit,
      FetchIncompleteRecordsForReport,
      CreateIncompleteRecordsReport [(5, ''EVA'', Some ''Chile'', STATUS_INCOMPLETE)]]"
    unfolding m
    by (simp add: run_defs prog_defs sim_defs bulk_data_of_def incomplete_record_def Let_def
        record_status_def)
  show ?thesis using r c by (simp add: start_def sim_world_def)
qed


subsection \<open>A query that fails\<close>

lemma fetch_persons_unfold:
  "fetch_persons_to_process env db s =
     (case cursor db of
        None \<Rightarrow> (Inr [], s\<lparr>calls := calls s @ [FetchPersonsToProcess]\<rparr>)
      | Some c \<Rightarrow>
          (case select_persons env (world s) of
             (Inl e, w') \<Rightarrow>
               (Inr [], s\<lparr>calls := calls s @ [FetchPersonsToProcess],
                          sql := sql s @ [SelectPersons], world := w'\<rparr>)
           | (Inr ps, w') \<Rightarrow>
               (Inr ps, s\<lparr>calls := calls s @ [FetchPersonsToProcess],
                          sql := sql s @ [SelectPersons], world := w'\<rparr>)))"
  by (simp add: fetch_persons_to_process_def and_then_def try_except_def note_call_def
      note_sql_def prim_def ret_def raise_def with_cursor_def
      split: option.splits prod.splits sum.splits)

lemma fetch_persons_returns:
  "\<exists>ps s'. fetch_persons_to_process env db s = (Inr ps, s')"
  by (simp add: fetch_persons_unfold split: option.splits prod.splits sum.splits)

lemma main_body_nothing_fetched:
  assumes "fetch_persons_to_process env db s = (Inr [], s1)"
  shows "main_body env db s = (Inr (), s1)"
  using assms by (simp add: main_body_def and_then_def ret_def)

lemma main_nothing_fetched:
  assumes "DatabaseManager_init env s = (Inr db, s0)"
    and "fetch_persons_to_process env db s0 = (Inr [], s1)"
  shows "main env s = disconnect env db s1"
proof -
  obtain r s2 where d: "disconnect env db s1 = (r, s2)" by (cases "disconnect env db s1")
  have "main_body env db s0 = (Inr (), s1)"
    using assms(2) by (rule main_body_nothing_fetched)
  then show ?thesis
    using assms(1) d by (cases r) (simp_all add: main_def try_finally_def try_except_def)
qed

text \<open>
  Claim C10. \<open>fetch_persons_to_process\<close> never raises. When the query raises, whatever
  the exception, it returns the empty list. In \<open>main\<close>, an empty list from the fetch, for
  either reason, ends the work at once: the run makes the constructor call, the fetch and
  the disconnect of the \<open>finally\<close> clause and no other call, so no pre-check, no search
  and no report; and \<open>main\<close> ends as that disconnect ends. Nothing in this depends on why
  the list was empty.
\<close>

theorem fetch_failure_like_empty:
  "(\<exists>ps s'. fetch_persons_to_process env db s = (Inr ps, s'))
   \<and> (\<forall>e w'. cursor db \<noteq> None \<and> select_persons env (world s) = (Inl e, w') \<longrightarrow>
        fetch_persons_to_process env db s =
          (Inr [], s\<lparr>calls := calls s @ [FetchPersonsToProcess],
                     sql := sql s @ [SelectPersons], world := w'\<rparr>))
   \<and> (\<forall>w'. cursor db \<noteq> None \<and> select_persons env (world s) = (Inr [], w') \<longrightarrow>
        fetch_persons_to_process env db s =
          (Inr [], s\<lparr>calls := calls s @ [FetchPersonsToProcess],
                     sql := sql s @ [SelectPersons], world := w'\<rparr>))
   \<and> (\<forall>s1. fetch_persons_to_process env db s = (Inr [], s1) \<longrightarrow>
        main_body env db s = (Inr (), s1))
   \<and> (\<forall>db' s0 s1.
        DatabaseManager_init env s = (Inr db', s0) \<and>
        fetch_persons_to_process env db' s0 = (Inr [], s1) \<longrightarrow>
        main env s = disconnect env db' s1 \<and>
        calls (snd (main env s)) =
          calls s @ [DatabaseManagerInit, FetchPersonsToProcess, Disconnect])"
proof (intro conjI allI impI)
  show "\<exists>ps s'. fetch_persons_to_process env db s = (Inr ps, s')"
    by (rule fetch_persons_returns)
next
  fix e w'
  assume "cursor db \<noteq> None \<and> select_persons env (world s) = (Inl e, w')"
  then show "fetch_persons_to_process env db s =
          (Inr [], s\<lparr>calls := calls s @ [FetchPersonsToProcess],
                     sql := sql s @ [SelectPersons], world := w'\<rparr>)"
    by (auto simp: fetch_persons_unfold)
next
  fix w'
  assume "cursor db \<noteq> None \<and> select_persons env (world s) = (Inr [], w')"
  then show "fetch_persons_to_process env db s =
          (Inr [], s\<lparr>calls := calls s @ [FetchPersonsToProcess],
                     sql := sql s @ [SelectPersons], world := w'\<rparr>)"
    by (auto simp: fetch_persons_unfold)
next
  fix s1
  assume "fetch_persons_to_process env db s = (Inr [], s1)"
  then show "main_body env db s = (Inr (), s1)"
    by (rule main_body_nothing_fetched)
next
  fix db' s0 s1
  assume a: "DatabaseManager_init env s = (Inr db', s0) \<and>
        fetch_persons_to_process env db' s0 = (Inr [], s1)"
  then show m: "main env s = disconnect env db' s1"
    by (simp add: main_nothing_fetched)
  obtain r s2 where d: "disconnect env db' s1 = (r, s2)" by (cases "disconnect env db' s1")
  have "calls s0 = calls s @ [DatabaseManagerInit]"
    using a [THEN conjunct1] by (rule DatabaseManager_init_calls)
  moreover have "calls s1 = calls s0 @ [FetchPersonsToProcess]"
    using a [THEN conjunct2] by (rule fetch_persons_to_process_calls)
  moreover have "calls s2 = calls s1 @ [Disconnect]"
    using d by (rule disconnect_calls)
  ultimately show "calls (snd (main env s)) =
          calls s @ [DatabaseManagerInit, FetchPersonsToProcess, Disconnect]"
    using m d by simp
qed

theorem fetch_failure_like_empty_witness:
  "calls (snd (main sim_env (start (sim_world\<lparr>sim_query := Inl OperationalError\<rparr>)))) =
     [DatabaseManagerInit, FetchPersonsToProcess, Disconnect]
   \<and> fst (main sim_env (start (sim_world\<lparr>sim_query := Inl OperationalError\<rparr>))) = Inr ()
   \<and> fst (fetch_persons_to_process sim_env a_db
        (start (sim_world\<lparr>sim_query := Inl OperationalError\<rparr>))) = Inr []
   \<and> calls (snd (main sim_env (start sim_world))) =
     [DatabaseManagerInit, FetchPersonsToProcess, Disconnect]
   \<and> fst (main sim_env (start sim_world)) = Inr ()"
proof -
  let ?W = "sim_world\<lparr>sim_query := Inl OperationalError\<rparr>"
  note t = fetch_failure_like_empty [where env = sim_env and db = a_db and s = "start ?W"]
  note t0 = fetch_failure_like_empty [where env = sim_env and db = a_db and s = "start sim_world"]
  have h2: "cursor a_db \<noteq> None \<and>
      select_persons sim_env (world (start ?W)) = (Inl OperationalError, ?W)"
    by (simp add: sim_defs)
  have f: "fst (fetch_persons_to_process sim_env a_db (start ?W)) = Inr []"
    using t [THEN conjunct2, THEN conjunct1, rule_format, OF h2] by simp
  let ?i = "DatabaseManager_init sim_env (start ?W)"
  let ?g = "fetch_persons_to_process sim_env a_db (snd ?i)"
  have i1: "fst ?i = Inr a_db"
    by (simp add: DatabaseManager_init_def prog_defs sim_defs)
  have g1: "fst ?g = Inr []"
    by (simp add: DatabaseManager_init_def fetch_persons_to_process_def prog_defs sim_defs)
  have h5: "?i = (Inr a_db, snd ?i) \<and> ?g = (Inr [], snd ?g)"
    using i1 g1 by (simp add: prod_eq_iff)
  have m: "main sim_env (start ?W) = disconnect sim_env a_db (snd ?g)
      \<and> calls (snd (main sim_env (start ?W))) =
          calls (start ?W) @ [DatabaseManagerInit, FetchPersonsToProcess, Disconnect]"
    using t [THEN conjunct2, THEN conjunct2, THEN conjunct2, THEN conjunct2, rule_format, OF h5] .
  have r: "fst (main sim_env (start ?W)) = Inr ()"
    unfolding m [THEN conjunct1] by (simp add: disconnect_def prog_defs sim_defs)
  let ?i0 = "DatabaseManager_init sim_env (start sim_world)"
  let ?g0 = "fetch_persons_to_process sim_env a_db (snd ?i0)"
  have i0: "fst ?i0 = Inr a_db"
    by (simp add: DatabaseManager_init_def prog_defs sim_defs)
  have g0: "fst ?g0 = Inr []"
    by (simp add: DatabaseManager_init_def fetch_persons_to_process_def prog_defs sim_defs)
  have h50: "?i0 = (Inr a_db, snd ?i0) \<and> ?g0 = (Inr [], snd ?g0)"
    using i0 g0 by (simp add: prod_eq_iff)
  have m0: "main sim_env (start sim_world) = disconnect sim_env a_db (snd ?g0)
      \<and> calls (snd (main sim_env (start sim_world))) =
          calls (start sim_world) @ [DatabaseManagerInit, FetchPersonsToProcess, Disconnect]"
    using t0 [THEN conjunct2, THEN conjunct2, THEN conjunct2, THEN conjunct2, rule_format, OF h50] .
  have r0: "fst (main sim_env (start sim_world)) = Inr ()"
    unfolding m0 [THEN conjunct1] by (simp add: disconnect_def prog_defs sim_defs)
  show ?thesis
    using f m [THEN conjunct2] r m0 [THEN conjunct2] r0 by (simp add: start_def)
qed


subsection \<open>Closing the browser\<close>

text \<open>
  Claim C7. A run of \<open>run_ofac_searches\<close> in which the browser starts and the loop
  raises: the queue holds two persons, the database refuses the INSERT of the first result
  and then refuses the ROLLBACK too (as a lost connection does). The exception of
  \<open>rollback\<close> leaves the \<open>except\<close> clause of \<open>insert_single_result\<close>, then the loop,
  then \<open>run_ofac_searches\<close>, which has no \<open>try\<close> around its loop: \<open>close\<close> is never
  called and the browser is never quit, also not by \<open>main\<close>, whose \<open>finally\<close> clause
  disconnects the database only. With a database that accepts the statements, the same
  queue ends with one call of \<open>close\<close> and one quit.
\<close>

theorem close_skipped_when_loop_raises:
  "(case run_ofac_searches sim_env a_db [ana, ben]
          (start (sim_world\<lparr>sim_insert_ok := False, sim_rollback_ok := False\<rparr>)) of
      (r, s') \<Rightarrow>
        r = Inl DatabaseError \<and>
        calls s' = [OfacScraperInit, SearchPerson ''ANA'' (Some ''Calle 1'') (Some ''Chile''),
                    InsertSingleResult ana (Some 3) STATUS_OK] \<and>
        count_list (calls s') Close = 0 \<and>
        sim_quits (world s') = 0)
   \<and> (case main sim_env
          (start (sim_world\<lparr>sim_insert_ok := False, sim_rollback_ok := False,
                            sim_query := Inr [ana, ben]\<rparr>)) of
      (r, s') \<Rightarrow>
        r = Inr () \<and>
        calls s' = [DatabaseManagerInit, FetchPersonsToProcess, OfacScraperInit,
                    SearchPerson ''ANA'' (Some ''Calle 1'') (Some ''Chile''),
                    InsertSingleResult ana (Some 3) STATUS_OK, Disconnect] \<and>
        sim_quits (world s') = 0)
   \<and> (case run_ofac_searches sim_env a_db [ana, ben] (start sim_world) of
      (r, s') \<Rightarrow>
        r = Inr () \<and> count_list (calls s') Close = 1 \<and> last (calls s') = Close \<and>
        sim_quits (world s') = 1)"
proof (intro conjI)
  show "case run_ofac_searches sim_env a_db [ana, ben]
          (start (sim_world\<lparr>sim_insert_ok := False, sim_rollback_ok := False\<rparr>)) of
      (r, s') \<Rightarrow>
        r = Inl DatabaseError \<and>
        calls s' = [OfacScraperInit, SearchPerson ''ANA'' (Some ''Calle 1'') (Some ''Chile''),
                    InsertSingleResult ana (Some 3) STATUS_OK] \<and>
        count_list (calls s') Close = 0 \<and>
        sim_quits (world s') = 0"
    by (simp add: run_defs prog_defs sim_defs)
  show "case main sim_env
          (start (sim_world\<lparr>sim_insert_ok := False, sim_rollback_ok := False,
                            sim_query := Inr [ana, ben]\<rparr>)) of
      (r, s') \<Rightarrow>
        r = Inr () \<and>
        calls s' = [DatabaseManagerInit, FetchPersonsToProcess, OfacScraperInit,
                    SearchPerson ''ANA'' (Some ''Calle 1'') (Some ''Chile''),
                    InsertSingleResult ana (Some 3) STATUS_OK, Disconnect] \<and>
        sim_quits (world s') = 0"
    by (simp add: run_defs prog_defs sim_defs categorize_persons_def py_not_def bulk_data_of_def
        Let_def)
  show "case run_ofac_searches sim_env a_db [ana, ben] (start sim_world) of
      (r, s') \<Rightarrow>
        r = Inr () \<and> count_list (calls s') Close = 1 \<and> last (calls s') = Close \<and>
        sim_quits (world s') = 1"
    by (simp add: run_defs prog_defs sim_defs)
qed


subsection \<open>Records handed to the storage\<close>










subsection \<open>No statement changes a stored row\<close>


















subsection \<open>One record for every person that is reached\<close>










end
